theory Spec2Isabelle
  imports Complex_Main
begin

section \<open>Values handled by the router\<close>

text \<open>
  The router (\<^verbatim>\<open>src/router.py\<close>) works on what \<^verbatim>\<open>json.loads\<close> produces: the
  Lambda event and every decoded Kafka message are JSON values. An object is kept as an
  association list in insertion order, as a Python \<^verbatim>\<open>dict\<close> is; integers are
  unbounded; a float is the rational number it denotes, or one of the three special
  values that \<^verbatim>\<open>json.loads\<close> accepts.
\<close>

datatype pyfloat = Finite rat | PosInf | NegInf | NaN

datatype json =
    JNull
  | JBool bool
  | JInt int
  | JFloat pyfloat
  | JStr string
  | JList "json list"
  | JObj "(string \<times> json) list"

text \<open>The exceptions that the code can meet; the value stands for the exception
  and for its description \<^verbatim>\<open>str(e)\<close>.\<close>

datatype py_error =
    AttributeError
  | TypeError
  | KeyError
  | BinasciiError
  | UnicodeDecodeError
  | JSONDecodeError
  | ClientError string

subsection \<open>The Python operations the router applies to such values\<close>

text \<open>\<^verbatim>\<open>bool(x)\<close>, as used by \<^verbatim>\<open>if x\<close>, \<^verbatim>\<open>not x\<close> and \<^verbatim>\<open>x and y\<close>.\<close>

fun truthy :: "json \<Rightarrow> bool" where
  "truthy JNull = False"
| "truthy (JBool b) = b"
| "truthy (JInt i) = (i \<noteq> 0)"
| "truthy (JFloat f) = (f \<noteq> Finite 0)"
| "truthy (JStr s) = (s \<noteq> [])"
| "truthy (JList xs) = (xs \<noteq> [])"
| "truthy (JObj d) = (d \<noteq> [])"

text \<open>\<^verbatim>\<open>d.get(k, default)\<close> on the entries of a dict, and \<^verbatim>\<open>x.get(k, default)\<close> on
  any value: only a dict has the method.\<close>

definition dict_get :: "(string \<times> json) list \<Rightarrow> string \<Rightarrow> json \<Rightarrow> json" where
  "dict_get d k dflt = (case map_of d k of Some v \<Rightarrow> v | None \<Rightarrow> dflt)"

fun py_get :: "json \<Rightarrow> string \<Rightarrow> json \<Rightarrow> py_error + json" where
  "py_get (JObj d) k dflt = Inr (dict_get d k dflt)"
| "py_get _ k dflt = Inl AttributeError"

text \<open>\<^verbatim>\<open>d[k] = v\<close> on a dict: an existing key keeps its place, a new key goes last.\<close>

fun dict_set :: "(string \<times> 'v) list \<Rightarrow> string \<Rightarrow> 'v \<Rightarrow> (string \<times> 'v) list" where
  "dict_set [] k v = [(k, v)]"
| "dict_set ((k', v') # d) k v =
     (if k' = k then (k, v) # d else (k', v') # dict_set d k v)"

text \<open>\<^verbatim>\<open>x[k] = v\<close> on a value: item assignment by a string key works on a dict only.\<close>

fun py_setitem :: "json \<Rightarrow> string \<Rightarrow> json \<Rightarrow> py_error + json" where
  "py_setitem (JObj d) k v = Inr (JObj (dict_set d k v))"
| "py_setitem _ k v = Inl TypeError"

text \<open>
  Using a value as a key of a dict whose keys are strings: a string names a key, any
  other hashable value names none, and a list or a dict cannot be hashed.
\<close>

fun hash_key :: "json \<Rightarrow> py_error + string option" where
  "hash_key (JStr s) = Inr (Some s)"
| "hash_key (JList xs) = Inl TypeError"
| "hash_key (JObj d) = Inl TypeError"
| "hash_key _ = Inr None"

text \<open>\<^verbatim>\<open>x in d\<close> for a dict \<open>d\<close> with string keys.\<close>

definition py_in :: "json \<Rightarrow> (string \<times> 'v) list \<Rightarrow> py_error + bool" where
  "py_in x d =
     (case hash_key x of
        Inl e \<Rightarrow> Inl e
      | Inr None \<Rightarrow> Inr False
      | Inr (Some s) \<Rightarrow> Inr (s \<in> set (map fst d)))"

text \<open>\<^verbatim>\<open>x and x in d\<close>: the membership test runs only for a truthy \<open>x\<close>.\<close>

definition truthy_and_in :: "json \<Rightarrow> (string \<times> 'v) list \<Rightarrow> py_error + bool" where
  "truthy_and_in x d = (if truthy x then py_in x d else Inr False)"

text \<open>
  \<^verbatim>\<open>x <= k\<close> for an integer literal \<open>k\<close>: defined on integers, on booleans (which
  are the integers 0 and 1) and on floats, where every comparison with NaN is false;
  any other operand raises \<^verbatim>\<open>TypeError\<close>.
\<close>

fun float_le_int :: "pyfloat \<Rightarrow> int \<Rightarrow> bool" where
  "float_le_int (Finite q) k = (q \<le> of_int k)"
| "float_le_int PosInf k = False"
| "float_le_int NegInf k = True"
| "float_le_int NaN k = False"

fun py_le_int :: "json \<Rightarrow> int \<Rightarrow> py_error + bool" where
  "py_le_int (JInt n) k = Inr (n \<le> k)"
| "py_le_int (JBool b) k = Inr ((if b then 1 else 0) \<le> k)"
| "py_le_int (JFloat f) k = Inr (float_le_int f k)"
| "py_le_int _ k = Inl TypeError"

text \<open>\<^verbatim>\<open>len(x)\<close>: strings, lists and dicts have a length.\<close>

fun py_len :: "json \<Rightarrow> py_error + nat" where
  "py_len (JStr s) = Inr (length s)"
| "py_len (JList xs) = Inr (length xs)"
| "py_len (JObj d) = Inr (length d)"
| "py_len _ = Inl TypeError"

text \<open>\<^verbatim>\<open>x.items()\<close>: only a dict has the method.\<close>

fun py_items :: "json \<Rightarrow> py_error + (string \<times> json) list" where
  "py_items (JObj d) = Inr d"
| "py_items _ = Inl AttributeError"

text \<open>
  \<^verbatim>\<open>for r in x\<close>: a list yields its elements, a string its characters (as
  one-character strings), a dict its keys.
\<close>

fun py_iter :: "json \<Rightarrow> py_error + json list" where
  "py_iter (JList xs) = Inr xs"
| "py_iter (JStr s) = Inr (map (\<lambda>c. JStr [c]) s)"
| "py_iter (JObj d) = Inr (map (\<lambda>kv. JStr (fst kv)) d)"
| "py_iter _ = Inl TypeError"

section \<open>Configuration\<close>

text \<open>
  The three queue URLs are read from the environment when the module is loaded.
  \<^verbatim>\<open>QUEUE_MAPPINGS\<close>, \<^verbatim>\<open>BATCH_SIZE\<close> are the module's constants.
\<close>

record config =
  SMALL_QUEUE_URL :: string
  MEDIUM_QUEUE_URL :: string
  LARGE_QUEUE_URL :: string

definition QUEUE_MAPPINGS :: "config \<Rightarrow> (string \<times> string) list" where
  "QUEUE_MAPPINGS cfg =
     [(''SMALL'', SMALL_QUEUE_URL cfg),
      (''MEDIUM'', MEDIUM_QUEUE_URL cfg),
      (''LARGE'', LARGE_QUEUE_URL cfg)]"

definition BATCH_SIZE :: nat where
  "BATCH_SIZE = 10"

section \<open>Classification\<close>

text \<open>
  \<^verbatim>\<open>message.get('applicationCount', message.get('NumberOfApplications', 0))\<close>
  on the entries of a dict.
\<close>

definition application_count :: "(string \<times> json) list \<Rightarrow> json" where
  "application_count d =
     dict_get d ''applicationCount'' (dict_get d ''NumberOfApplications'' (JInt 0))"

text \<open>The \<^verbatim>\<open>if app_count <= 50 ... elif app_count <= 200 ... else\<close> of
  \<^verbatim>\<open>determine_queue_type\<close>.\<close>

definition threshold_ladder :: "json \<Rightarrow> py_error + json" where
  "threshold_ladder app_count =
     (case py_le_int app_count 50 of
        Inl e \<Rightarrow> Inl e
      | Inr True \<Rightarrow> Inr (JStr ''SMALL'')
      | Inr False \<Rightarrow>
          (case py_le_int app_count 200 of
             Inl e \<Rightarrow> Inl e
           | Inr True \<Rightarrow> Inr (JStr ''MEDIUM'')
           | Inr False \<Rightarrow> Inr (JStr ''LARGE'')))"

fun determine_queue_type :: "config \<Rightarrow> json \<Rightarrow> py_error + json" where
  "determine_queue_type cfg (JObj d) =
     (let queue_type = dict_get d ''queueType'' JNull in
      case truthy_and_in queue_type (QUEUE_MAPPINGS cfg) of
        Inl e \<Rightarrow> Inl e
      | Inr True \<Rightarrow> Inr queue_type
      | Inr False \<Rightarrow> threshold_ladder (application_count d))"
| "determine_queue_type cfg _ = Inl AttributeError"

section \<open>Observations and collaborators\<close>

text \<open>
  What an invocation does besides returning: calls of the logger, of the three metrics
  of \<^verbatim>\<open>RouterMetrics\<close> and of the SQS client. A function that has such effects
  returns the list of its observations with its result; an exception leaves the
  observations made before it in place. Calls of the logger and of the metrics are
  taken to return normally.
\<close>

datatype level = DEBUG | INFO | WARNING | ERROR

record sqs_entry =
  Entry_Id :: nat
  MessageBody :: json
  queueType_attribute :: json
  productId_attribute :: json

datatype observation =
    Log level string
  | MessagesProcessed json
  | RoutingErrors string
  | BatchSize nat
  | SendMessageBatch string "sqs_entry list"

text \<open>
  What \<^verbatim>\<open>sqs_client.send_message_batch\<close> does: it returns a response, of which
  the code reads the entry \<^verbatim>\<open>'Failed'\<close> (absent, or the list of the failed
  entries), or it raises.
\<close>

datatype sqs_outcome = Responded "string list option" | Raised py_error

text \<open>
  The library functions and the services that the router calls are parameters of the
  model: the three decoding steps of \<^verbatim>\<open>parse_kafka_message\<close>, the answer of SQS
  to the call made by the \<open>k\<close>-th submitted task, and whether the result of the
  \<open>k\<close>-th future arrives within the 30 seconds that \<^verbatim>\<open>future.result\<close> waits.
  Every call of SQS is taken to return or raise eventually.
\<close>

record collaborators =
  b64decode :: "string \<Rightarrow> py_error + string"
  utf8_decode :: "string \<Rightarrow> py_error + string"
  json_loads :: "string \<Rightarrow> py_error + json"
  sqs_client :: "nat \<Rightarrow> string \<Rightarrow> sqs_entry list \<Rightarrow> sqs_outcome"
  result_within_timeout :: "nat \<Rightarrow> bool"

section \<open>Decoding\<close>

text \<open>
  The three steps between the \<^verbatim>\<open>value\<close> of a record and the message:
  \<^verbatim>\<open>base64.b64decode\<close> (which takes a string, not another JSON value),
  \<^verbatim>\<open>decode('utf-8')\<close> and \<^verbatim>\<open>json.loads\<close>.
\<close>

definition decode_value :: "collaborators \<Rightarrow> json \<Rightarrow> py_error + json" where
  "decode_value col encoded_value =
     (case encoded_value of
        JStr s \<Rightarrow>
          (case b64decode col s of
             Inl e \<Rightarrow> Inl e
           | Inr decoded_bytes \<Rightarrow>
               (case utf8_decode col decoded_bytes of
                  Inl e \<Rightarrow> Inl e
                | Inr message_str \<Rightarrow> json_loads col message_str))
      | _ \<Rightarrow> Inl TypeError)"

definition parse_failed :: "json option \<times> observation list" where
  "parse_failed =
     (None, [Log ERROR ''Failed to parse Kafka message'', RoutingErrors ''parse_error''])"

definition parse_kafka_message ::
  "collaborators \<Rightarrow> json \<Rightarrow> json option \<times> observation list" where
  "parse_kafka_message col kafka_record =
     (case py_get kafka_record ''value'' (JStr []) of
        Inl e \<Rightarrow> parse_failed
      | Inr encoded_value \<Rightarrow>
          if \<not> truthy encoded_value
          then (None, [Log WARNING ''Empty message value in record''])
          else (case decode_value col encoded_value of
                  Inl e \<Rightarrow> parse_failed
                | Inr message_data \<Rightarrow> (Some message_data, [Log DEBUG ''Parsed message''])))"

section \<open>Grouping\<close>

text \<open>\<^verbatim>\<open>grouped_messages[queue_type].append(message)\<close>.\<close>

definition dict_append ::
  "(string \<times> json list) list \<Rightarrow> json \<Rightarrow> json \<Rightarrow> py_error + (string \<times> json list) list" where
  "dict_append grouped queue_type message =
     (case hash_key queue_type of
        Inl e \<Rightarrow> Inl e
      | Inr None \<Rightarrow> Inl KeyError
      | Inr (Some k) \<Rightarrow>
          (case map_of grouped k of
             None \<Rightarrow> Inl KeyError
           | Some ms \<Rightarrow> Inr (dict_set grouped k (ms @ [message]))))"

text \<open>
  The loop of \<^verbatim>\<open>route_messages_by_queue_type\<close>, with the dict built so far and the
  observations made so far. The assignment \<^verbatim>\<open>message['queueType'] = queue_type\<close>
  changes the message object itself, which \<^verbatim>\<open>parsed_messages\<close> holds too; the
  handler reads only the length of that list afterwards.
\<close>

fun route_loop ::
  "config \<Rightarrow> json list \<Rightarrow> (string \<times> json list) list \<Rightarrow> observation list
     \<Rightarrow> (py_error + (string \<times> json list) list) \<times> observation list" where
  "route_loop cfg [] grouped tr = (Inr grouped, tr)"
| "route_loop cfg (message # rest) grouped tr =
     (case determine_queue_type cfg message of
        Inl e \<Rightarrow> (Inl e, tr)
      | Inr queue_type \<Rightarrow>
          (case truthy_and_in queue_type grouped of
             Inl e \<Rightarrow> (Inl e, tr)
           | Inr True \<Rightarrow>
               (case py_setitem message ''queueType'' queue_type of
                  Inl e \<Rightarrow> (Inl e, tr)
                | Inr message' \<Rightarrow>
                    (case dict_append grouped queue_type message' of
                       Inl e \<Rightarrow> (Inl e, tr)
                     | Inr grouped' \<Rightarrow>
                         route_loop cfg rest grouped' (tr @ [MessagesProcessed queue_type])))
           | Inr False \<Rightarrow>
               route_loop cfg rest grouped
                 (tr @ [Log WARNING ''Unable to determine queue type'',
                        RoutingErrors ''undetermined_queue_type''])))"

definition route_messages_by_queue_type ::
  "config \<Rightarrow> json list \<Rightarrow> (py_error + (string \<times> json list) list) \<times> observation list" where
  "route_messages_by_queue_type cfg parsed_messages =
     route_loop cfg parsed_messages [(''SMALL'', []), (''MEDIUM'', []), (''LARGE'', [])] []"

section \<open>Batching and dispatch\<close>

text \<open>
  \<^verbatim>\<open>range(i, n, BATCH_SIZE)\<close>, and the slices
  \<^verbatim>\<open>messages[i:i + BATCH_SIZE]\<close> taken at its values.
\<close>

function range_by_BATCH_SIZE :: "nat \<Rightarrow> nat \<Rightarrow> nat list" where
  "range_by_BATCH_SIZE i n = (if i < n then i # range_by_BATCH_SIZE (i + BATCH_SIZE) n else [])"
  by pat_completeness auto
termination
  by (relation "measure (\<lambda>(i, n). n - i)") (auto simp: BATCH_SIZE_def)

declare range_by_BATCH_SIZE.simps [simp del]

definition batches :: "'a list \<Rightarrow> 'a list list" where
  "batches messages =
     map (\<lambda>i. take BATCH_SIZE (drop i messages)) (range_by_BATCH_SIZE 0 (length messages))"

text \<open>The entries that \<^verbatim>\<open>send_to_sqs_batch\<close> prepares, numbered from \<open>i\<close>. The body
  stands for \<^verbatim>\<open>json.dumps(message)\<close> and the product attribute for the value whose
  \<^verbatim>\<open>str\<close> is sent.\<close>

fun prepare_entries :: "nat \<Rightarrow> json list \<Rightarrow> py_error + sqs_entry list" where
  "prepare_entries i [] = Inr []"
| "prepare_entries i (message # rest) =
     (case py_get message ''queueType'' (JStr ''UNKNOWN'') of
        Inl e \<Rightarrow> Inl e
      | Inr qt \<Rightarrow>
          (case py_get message ''productId'' (JStr ''unknown'') of
             Inl e \<Rightarrow> Inl e
           | Inr pid \<Rightarrow>
               (case prepare_entries (Suc i) rest of
                  Inl e \<Rightarrow> Inl e
                | Inr entries \<Rightarrow>
                    Inr (\<lparr>Entry_Id = i, MessageBody = message,
                          queueType_attribute = qt, productId_attribute = pid\<rparr> # entries))))"

definition send_failed :: "observation list" where
  "send_failed = [Log ERROR ''Failed to send batch to SQS'', RoutingErrors ''sqs_send_error'']"

definition send_to_sqs_batch ::
  "(string \<Rightarrow> sqs_entry list \<Rightarrow> sqs_outcome) \<Rightarrow> json list \<Rightarrow> string
     \<Rightarrow> bool \<times> observation list" where
  "send_to_sqs_batch client messages queue_url =
     (case prepare_entries 0 messages of
        Inl e \<Rightarrow> (False, send_failed)
      | Inr entries \<Rightarrow>
          (case client queue_url entries of
             Raised e \<Rightarrow> (False, SendMessageBatch queue_url entries # send_failed)
           | Responded failed \<Rightarrow>
               if (case failed of None \<Rightarrow> False | Some fs \<Rightarrow> fs \<noteq> [])
               then (False, [SendMessageBatch queue_url entries,
                             Log ERROR ''SQS batch send failures'',
                             RoutingErrors ''sqs_batch_failure''])
               else (True, [SendMessageBatch queue_url entries,
                            Log INFO ''Successfully sent batch to SQS''])))"

text \<open>A submitted task: the batch, the queue it goes to, and the queue type.\<close>

record task =
  task_batch :: "json list"
  task_url :: string
  task_queue_type :: string

text \<open>
  The submission loop of \<^verbatim>\<open>send_batches_concurrently\<close>: the tasks submitted, in
  order, and the \<^verbatim>\<open>KeyError\<close> of \<^verbatim>\<open>QUEUE_MAPPINGS[queue_type]\<close> if the loop
  stopped on one.
\<close>

fun submit_tasks ::
  "config \<Rightarrow> (string \<times> json list) list \<Rightarrow> py_error option \<times> task list" where
  "submit_tasks cfg [] = (None, [])"
| "submit_tasks cfg ((queue_type, messages) # rest) =
     (if messages = [] then submit_tasks cfg rest
      else (case map_of (QUEUE_MAPPINGS cfg) queue_type of
              None \<Rightarrow> (Some KeyError, [])
            | Some queue_url \<Rightarrow>
                (case submit_tasks cfg rest of
                   (err, later) \<Rightarrow>
                     (err,
                      map (\<lambda>batch. \<lparr>task_batch = batch, task_url = queue_url,
                                     task_queue_type = queue_type\<rparr>) (batches messages)
                      @ later))))"

text \<open>What the \<open>k\<close>-th task returns and observes.\<close>

definition task_result :: "collaborators \<Rightarrow> nat \<Rightarrow> task \<Rightarrow> bool \<times> observation list" where
  "task_result col k t = send_to_sqs_batch (sqs_client col k) (task_batch t) (task_url t)"

text \<open>Whether the wait for the \<open>k\<close>-th future gives \<^verbatim>\<open>True\<close>.\<close>

definition task_succeeded :: "collaborators \<Rightarrow> nat \<Rightarrow> task \<Rightarrow> bool" where
  "task_succeeded col k t = (result_within_timeout col k \<and> fst (task_result col k t))"

text \<open>
  The loop that waits for the futures, from the \<open>k\<close>-th on, with the flag
  \<^verbatim>\<open>all_successful\<close>. The tasks run concurrently, so their observations may
  interleave in any order; the list gives those of each task followed by those of the
  wait for it, which is one of the possible orders.
\<close>

fun await_all ::
  "collaborators \<Rightarrow> nat \<Rightarrow> task list \<Rightarrow> bool \<Rightarrow> bool \<times> observation list" where
  "await_all col k [] all_successful = (all_successful, [])"
| "await_all col k (t # ts) all_successful =
     (case task_result col k t of
        (success, tr_task) \<Rightarrow>
          if result_within_timeout col k then
            if \<not> success then
              (case await_all col (Suc k) ts False of
                 (r, tr) \<Rightarrow> (r, tr_task @ tr))
            else
              (case await_all col (Suc k) ts all_successful of
                 (r, tr) \<Rightarrow> (r, tr_task @ BatchSize (length (task_batch t)) # tr))
          else
            (case await_all col (Suc k) ts False of
               (r, tr) \<Rightarrow>
                 (r, tr_task @ [Log ERROR ''Batch send failed'',
                               RoutingErrors ''concurrent_send_error''] @ tr)))"

text \<open>The observations of the tasks alone, from the \<open>k\<close>-th on.\<close>

fun run_all :: "collaborators \<Rightarrow> nat \<Rightarrow> task list \<Rightarrow> observation list" where
  "run_all col k [] = []"
| "run_all col k (t # ts) = snd (task_result col k t) @ run_all col (Suc k) ts"

definition send_batches_concurrently ::
  "config \<Rightarrow> collaborators \<Rightarrow> (string \<times> json list) list
     \<Rightarrow> (py_error + bool) \<times> observation list" where
  "send_batches_concurrently cfg col grouped_messages =
     (case submit_tasks cfg grouped_messages of
        (Some e, futures) \<Rightarrow> (Inl e, run_all col 0 futures)
      | (None, futures) \<Rightarrow>
          (case await_all col 0 futures True of (r, tr) \<Rightarrow> (Inr r, tr)))"

section \<open>The handler\<close>

record queue_distribution =
  small :: nat
  medium :: nat
  large :: nat

text \<open>The dict that the handler returns; a key that a response does not have is
  \<open>None\<close>.\<close>

record response =
  statusCode :: int
  processedMessages :: "nat option"
  queueDistribution :: "queue_distribution option"
  error :: "py_error option"

text \<open>The loop over the records of one partition.\<close>

fun parse_records ::
  "collaborators \<Rightarrow> json list \<Rightarrow> json list \<Rightarrow> observation list
     \<Rightarrow> json list \<times> observation list" where
  "parse_records col [] parsed_messages tr = (parsed_messages, tr)"
| "parse_records col (kafka_record # rest) parsed_messages tr =
     (case parse_kafka_message col kafka_record of
        (parsed_message, tr') \<Rightarrow>
          parse_records col rest
            (case parsed_message of
               None \<Rightarrow> parsed_messages
             | Some m \<Rightarrow> if truthy m then parsed_messages @ [m] else parsed_messages)
            (tr @ tr'))"

text \<open>The loop over the partitions of the event.\<close>

fun parse_partitions ::
  "collaborators \<Rightarrow> (string \<times> json) list \<Rightarrow> json list \<Rightarrow> observation list
     \<Rightarrow> (py_error + json list) \<times> observation list" where
  "parse_partitions col [] parsed_messages tr = (Inr parsed_messages, tr)"
| "parse_partitions col ((topic_partition, records) # rest) parsed_messages tr =
     (case py_len records of
        Inl e \<Rightarrow> (Inl e, tr)
      | Inr n \<Rightarrow>
          (case py_iter records of
             Inl e \<Rightarrow> (Inl e, tr @ [Log DEBUG ''Processing partition''])
           | Inr rs \<Rightarrow>
               (case parse_records col rs parsed_messages
                       (tr @ [Log DEBUG ''Processing partition'']) of
                  (parsed_messages', tr') \<Rightarrow>
                    parse_partitions col rest parsed_messages' tr')))"

text \<open>The handler up to the end of its parsing loop: the messages kept.\<close>

definition decode_phase ::
  "collaborators \<Rightarrow> json \<Rightarrow> (py_error + json list) \<times> observation list" where
  "decode_phase col event =
     (case py_get event ''eventSource'' JNull of
        Inl e \<Rightarrow> (Inl e, [])
      | Inr event_source \<Rightarrow>
          (case py_get event ''records'' (JObj []) of
             Inl e \<Rightarrow> (Inl e, [])
           | Inr records \<Rightarrow>
               (case py_len records of
                  Inl e \<Rightarrow> (Inl e, [])
                | Inr record_count \<Rightarrow>
                    (case py_items records of
                       Inl e \<Rightarrow> (Inl e, [Log INFO ''Processing MSK event''])
                     | Inr partitions \<Rightarrow>
                         parse_partitions col partitions []
                           [Log INFO ''Processing MSK event'']))))"

text \<open>\<^verbatim>\<open>len(grouped_messages[k])\<close> for a literal key.\<close>

definition group_size :: "(string \<times> json list) list \<Rightarrow> string \<Rightarrow> py_error + nat" where
  "group_size grouped k =
     (case map_of grouped k of None \<Rightarrow> Inl KeyError | Some ms \<Rightarrow> Inr (length ms))"

text \<open>The handler after the parsing loop, from the grouping on.\<close>

definition dispatch_phase ::
  "config \<Rightarrow> collaborators \<Rightarrow> json list \<Rightarrow> (py_error + response) \<times> observation list" where
  "dispatch_phase cfg col parsed_messages =
     (case route_messages_by_queue_type cfg parsed_messages of
        (Inl e, tr) \<Rightarrow> (Inl e, tr)
      | (Inr grouped_messages, tr) \<Rightarrow>
          (case group_size grouped_messages ''SMALL'' of
             Inl e \<Rightarrow> (Inl e, tr)
           | Inr small_count \<Rightarrow>
          (case group_size grouped_messages ''MEDIUM'' of
             Inl e \<Rightarrow> (Inl e, tr)
           | Inr medium_count \<Rightarrow>
          (case group_size grouped_messages ''LARGE'' of
             Inl e \<Rightarrow> (Inl e, tr)
           | Inr large_count \<Rightarrow>
          (case send_batches_concurrently cfg col grouped_messages of
             (Inl e, tr') \<Rightarrow>
               (Inl e, tr @ Log INFO ''Grouped messages by queue type'' # tr')
           | (Inr success, tr') \<Rightarrow>
               (Inr \<lparr>statusCode = (if success then 200 else 500),
                     processedMessages = Some (length parsed_messages),
                     queueDistribution =
                       Some \<lparr>small = small_count, medium = medium_count,
                             large = large_count\<rparr>,
                     error = None\<rparr>,
                tr @ Log INFO ''Grouped messages by queue type'' # tr'
                   @ [Log INFO ''Completed message routing'']))))))"

text \<open>The body of the \<^verbatim>\<open>try\<close> statement of \<^verbatim>\<open>lambda_handler\<close>.\<close>

definition handler_body ::
  "config \<Rightarrow> collaborators \<Rightarrow> json \<Rightarrow> (py_error + response) \<times> observation list" where
  "handler_body cfg col event =
     (case decode_phase col event of
        (Inl e, tr) \<Rightarrow> (Inl e, tr)
      | (Inr parsed_messages, tr) \<Rightarrow>
          if parsed_messages = []
          then (Inr \<lparr>statusCode = 200, processedMessages = Some 0,
                     queueDistribution = None, error = None\<rparr>,
                tr @ [Log INFO ''Parsed messages from MSK'',
                      Log WARNING ''No valid messages to process''])
          else (case dispatch_phase cfg col parsed_messages of
                  (r, tr') \<Rightarrow> (r, tr @ Log INFO ''Parsed messages from MSK'' # tr')))"

text \<open>
  \<^verbatim>\<open>lambda_handler\<close>: the body, and the \<^verbatim>\<open>except Exception\<close> clause around it.
  The three decorators of the handler belong to the logging and metrics library and
  are outside the model.
\<close>

definition lambda_handler ::
  "config \<Rightarrow> collaborators \<Rightarrow> json \<Rightarrow> response \<times> observation list" where
  "lambda_handler cfg col event =
     (case handler_body cfg col event of
        (Inr r, tr) \<Rightarrow> (r, tr)
      | (Inl e, tr) \<Rightarrow>
          (\<lparr>statusCode = 500, processedMessages = None, queueDistribution = None,
            error = Some e\<rparr>,
           tr @ [Log ERROR ''Lambda handler error'', RoutingErrors ''handler_error'']))"

section \<open>Vocabulary of the properties\<close>

text \<open>The three categories, as values of the field \<^verbatim>\<open>queueType\<close>.\<close>

definition known_category :: "json \<Rightarrow> bool" where
  "known_category q = (q = JStr ''SMALL'' \<or> q = JStr ''MEDIUM'' \<or> q = JStr ''LARGE'')"

text \<open>A list or a dict cannot be hashed, so it cannot be looked up in a dict.\<close>

fun unhashable :: "json \<Rightarrow> bool" where
  "unhashable (JList xs) = True"
| "unhashable (JObj d) = True"
| "unhashable _ = False"

text \<open>The values that \<^verbatim>\<open><=\<close> compares with an integer: integers, floats, and
  booleans, which Python counts among the integers.\<close>

fun numeric :: "json \<Rightarrow> bool" where
  "numeric (JInt n) = True"
| "numeric (JFloat f) = True"
| "numeric (JBool b) = True"
| "numeric _ = False"

text \<open>
  A message with a known \<^verbatim>\<open>queueType\<close>, or with a numeric count and a
  \<^verbatim>\<open>queueType\<close> that the membership test accepts (absent, falsy, or hashable).
\<close>

fun classifiable :: "json \<Rightarrow> bool" where
  "classifiable (JObj d) =
     (known_category (dict_get d ''queueType'' JNull)
      \<or> (\<not> (truthy (dict_get d ''queueType'' JNull)
              \<and> unhashable (dict_get d ''queueType'' JNull))
         \<and> numeric (application_count d)))"
| "classifiable _ = False"

text \<open>The observations of one kind in a list of observations, in order.\<close>

fun routing_errors :: "observation list \<Rightarrow> string list" where
  "routing_errors [] = []"
| "routing_errors (RoutingErrors tag # tr) = tag # routing_errors tr"
| "routing_errors (_ # tr) = routing_errors tr"

fun messages_processed :: "observation list \<Rightarrow> json list" where
  "messages_processed [] = []"
| "messages_processed (MessagesProcessed q # tr) = q # messages_processed tr"
| "messages_processed (_ # tr) = messages_processed tr"

fun batch_sizes :: "observation list \<Rightarrow> nat list" where
  "batch_sizes [] = []"
| "batch_sizes (BatchSize n # tr) = n # batch_sizes tr"
| "batch_sizes (_ # tr) = batch_sizes tr"

fun sqs_calls :: "observation list \<Rightarrow> (string \<times> sqs_entry list) list" where
  "sqs_calls [] = []"
| "sqs_calls (SendMessageBatch url entries # tr) = (url, entries) # sqs_calls tr"
| "sqs_calls (_ # tr) = sqs_calls tr"

text \<open>No observation of the grouping or of the dispatch: no processed message, no batch
  size, no call of SQS.\<close>

definition quiet :: "observation list \<Rightarrow> bool" where
  "quiet tr = (messages_processed tr = [] \<and> batch_sizes tr = [] \<and> sqs_calls tr = [])"

text \<open>The sizes of the batches of the tasks that succeed, numbered from \<open>k\<close>.\<close>

fun succeeded_sizes :: "collaborators \<Rightarrow> nat \<Rightarrow> task list \<Rightarrow> nat list" where
  "succeeded_sizes col k [] = []"
| "succeeded_sizes col k (t # ts) =
     (if task_succeeded col k t
      then length (task_batch t) # succeeded_sizes col (Suc k) ts
      else succeeded_sizes col (Suc k) ts)"

text \<open>Whether all the tasks succeed, numbered from \<open>k\<close>.\<close>

fun all_succeeded :: "collaborators \<Rightarrow> nat \<Rightarrow> task list \<Rightarrow> bool" where
  "all_succeeded col k [] = True"
| "all_succeeded col k (t # ts) = (task_succeeded col k t \<and> all_succeeded col (Suc k) ts)"

text \<open>The number of messages in a grouping.\<close>

definition grouped_total :: "(string \<times> json list) list \<Rightarrow> nat" where
  "grouped_total grouped = sum_list (map (\<lambda>kv. length (snd kv)) grouped)"

text \<open>Every message of every list carries the key of its list as \<^verbatim>\<open>queueType\<close>.\<close>

definition tagged :: "(string \<times> json list) list \<Rightarrow> bool" where
  "tagged grouped =
     (\<forall>kv \<in> set grouped. \<forall>m \<in> set (snd kv).
        \<exists>d. m = JObj d \<and> map_of d ''queueType'' = Some (JStr (fst kv)))"

subsection \<open>An environment for examples\<close>

text \<open>The queue URLs of the unit tests.\<close>

definition test_config :: config where
  "test_config =
     \<lparr>SMALL_QUEUE_URL = ''https://sqs.us-west-2.amazonaws.com/123456789/dev-small-products-queue'',
      MEDIUM_QUEUE_URL = ''https://sqs.us-west-2.amazonaws.com/123456789/dev-medium-products-queue'',
      LARGE_QUEUE_URL = ''https://sqs.us-west-2.amazonaws.com/123456789/dev-large-products-queue''\<rparr>"

text \<open>
  Four payloads: the message of \<^verbatim>\<open>test_lambda_handler_success\<close>, a message with the
  count 300, a message whose count is a string, and the text of
  \<^verbatim>\<open>test_parse_invalid_json\<close>, which is no JSON.
  \<open>quoted\<close> puts a string between double quotes.
\<close>

definition quoted :: "string \<Rightarrow> string" where
  "quoted s = CHR 0x22 # s @ [CHR 0x22]"

definition payload_75 :: string where
  "payload_75 = ''eyJwcm9kdWN0SWQiOiAxMjMsICJhcHBsaWNhdGlvbkNvdW50IjogNzV9''"

definition text_75 :: string where
  "text_75 = ''{'' @ quoted ''productId'' @ '': 123, '' @ quoted ''applicationCount'' @ '': 75}''"

definition message_75 :: json where
  "message_75 = JObj [(''productId'', JInt 123), (''applicationCount'', JInt 75)]"

definition payload_300 :: string where
  "payload_300 = ''eyJwcm9kdWN0SWQiOiA5LCAiYXBwbGljYXRpb25Db3VudCI6IDMwMH0=''"

definition text_300 :: string where
  "text_300 = ''{'' @ quoted ''productId'' @ '': 9, '' @ quoted ''applicationCount'' @ '': 300}''"

definition message_300 :: json where
  "message_300 = JObj [(''productId'', JInt 9), (''applicationCount'', JInt 300)]"

definition payload_many :: string where
  "payload_many = ''eyJwcm9kdWN0SWQiOiA3LCAiYXBwbGljYXRpb25Db3VudCI6ICJtYW55In0=''"

definition text_many :: string where
  "text_many =
     ''{'' @ quoted ''productId'' @ '': 7, '' @ quoted ''applicationCount'' @ '': ''
       @ quoted ''many'' @ ''}''"

definition message_many :: json where
  "message_many = JObj [(''productId'', JInt 7), (''applicationCount'', JStr ''many'')]"

definition payload_invalid :: string where
  "payload_invalid = ''aW52YWxpZCBqc29u''"

definition text_invalid :: string where
  "text_invalid = ''invalid json''"

text \<open>
  Collaborators that treat these four payloads as the libraries do and reject any other
  one, with an SQS that accepts every batch in time unless told otherwise: \<open>failing\<close>
  lists the tasks whose batch SQS reports as failed.
\<close>

definition example_collaborators :: "nat list \<Rightarrow> collaborators" where
  "example_collaborators failing =
     \<lparr>b64decode = (\<lambda>s. if s = payload_75 then Inr text_75
                        else if s = payload_300 then Inr text_300
                        else if s = payload_many then Inr text_many
                        else if s = payload_invalid then Inr text_invalid
                        else Inl BinasciiError),
      utf8_decode = (\<lambda>b. Inr b),
      json_loads = (\<lambda>s. if s = text_75 then Inr message_75
                         else if s = text_300 then Inr message_300
                         else if s = text_many then Inr message_many
                         else Inl JSONDecodeError),
      sqs_client = (\<lambda>k url entries.
                      if k \<in> set failing then Responded (Some [''0'']) else Responded (Some [])),
      result_within_timeout = (\<lambda>k. True)\<rparr>"

text \<open>An event with one partition holding the given record values.\<close>

definition event_of :: "json list \<Rightarrow> json" where
  "event_of values =
     JObj [(''records'',
            JObj [(''product-applications-updates-dev-0'',
                   JList (map (\<lambda>v. JObj [(''value'', v)]) values))])]"

section \<open>Properties of batching\<close>

lemma range_unfold:
  "i < n \<Longrightarrow> range_by_BATCH_SIZE i n = i # range_by_BATCH_SIZE (i + BATCH_SIZE) n"
  by (simp add: range_by_BATCH_SIZE.simps [of i n])

lemma range_done: "\<not> i < n \<Longrightarrow> range_by_BATCH_SIZE i n = []"
  by (simp add: range_by_BATCH_SIZE.simps [of i n])

text \<open>The number of slices, bounded from both sides without division.\<close>

lemma range_bounds:
  "i < n \<Longrightarrow> n \<le> i + 10 * length (range_by_BATCH_SIZE i n) \<and>
     i + 10 * length (range_by_BATCH_SIZE i n) < n + 10"
proof (induction i n rule: range_by_BATCH_SIZE.induct)
  case (1 i n)
  have len: "length (range_by_BATCH_SIZE i n) = Suc (length (range_by_BATCH_SIZE (i + 10) n))"
    using range_unfold [OF "1.prems"] by (simp only: BATCH_SIZE_def list.size)
  show ?case
  proof (cases "i + 10 < n")
    case True
    then have "n \<le> i + 10 + 10 * length (range_by_BATCH_SIZE (i + 10) n) \<and>
        i + 10 + 10 * length (range_by_BATCH_SIZE (i + 10) n) < n + 10"
      using "1.IH" [OF "1.prems"] by (simp only: BATCH_SIZE_def)
    then show ?thesis unfolding len by simp
  next
    case False
    then have "range_by_BATCH_SIZE (i + 10) n = []"
      by (rule range_done [where i = "i + 10", unfolded BATCH_SIZE_def])
    then show ?thesis unfolding len using False "1.prems" by simp
  qed
qed

lemma ceil_char: "m \<le> 10 * L \<Longrightarrow> 10 * L < m + 10 \<Longrightarrow> L = (m + 9) div (10::nat)"
  by arith

lemma range_len: "length (range_by_BATCH_SIZE 0 n) = (n + 9) div 10"
proof (cases "0 < n")
  case True
  from range_bounds [OF True] show ?thesis by (intro ceil_char) simp_all
next
  case False
  then show ?thesis by (simp add: range_done)
qed

lemma split_at: "take n (drop i xs) @ drop (i + n) xs = drop i xs"
proof -
  have "take n (drop i xs) @ drop n (drop i xs) = drop i xs"
    by (rule append_take_drop_id)
  moreover have "drop n (drop i xs) = drop (i + n) xs"
    by (simp add: add.commute)
  ultimately show ?thesis by (simp only:)
qed

lemma concat_slices:
  "concat (map (\<lambda>j. take BATCH_SIZE (drop j xs)) (range_by_BATCH_SIZE i (length xs)))
     = drop i xs"
proof (induction i "length xs" rule: range_by_BATCH_SIZE.induct)
  case (1 i)
  show ?case
  proof (cases "i < length xs")
    case True
    have "concat (map (\<lambda>j. take BATCH_SIZE (drop j xs)) (range_by_BATCH_SIZE i (length xs)))
        = take BATCH_SIZE (drop i xs)
          @ concat (map (\<lambda>j. take BATCH_SIZE (drop j xs))
                      (range_by_BATCH_SIZE (i + BATCH_SIZE) (length xs)))"
      unfolding range_unfold [OF True] by simp
    also have "\<dots> = take BATCH_SIZE (drop i xs) @ drop (i + BATCH_SIZE) xs"
      using "1" [OF True] by (simp only:)
    also have "\<dots> = drop i xs" by (rule split_at)
    finally show ?thesis .
  next
    case False
    then have "range_by_BATCH_SIZE i (length xs) = []" by (rule range_done)
    then show ?thesis using False by simp
  qed
qed

lemma length_batch: "b \<in> set (batches messages) \<Longrightarrow> length b \<le> BATCH_SIZE"
  by (auto simp: batches_def)

lemma concat_batches: "concat (batches messages) = messages"
  using concat_slices [of messages 0] by (simp add: batches_def)

lemma length_batches: "length (batches messages) = (length messages + 9) div 10"
  by (simp add: batches_def range_len)

text \<open>
  C4. The slices that \<^verbatim>\<open>send_batches_concurrently\<close> cuts a list of \<open>n\<close> messages
  into: there are \<open>\<lceil>n / 10\<rceil>\<close> of them, that is \<open>(n + 9) div 10\<close>, none for the empty
  list; each holds at most 10 messages; and their concatenation, in order, is the list.
\<close>

theorem batches_chunking:
  "length (batches messages) = (length messages + 9) div 10
   \<and> (batches messages = [] \<longleftrightarrow> messages = [])
   \<and> (\<forall>b \<in> set (batches messages). length b \<le> 10)
   \<and> concat (batches messages) = messages"
proof -
  have "batches messages = [] \<longleftrightarrow> messages = []"
  proof
    assume "batches messages = []"
    then have "concat (batches messages) = []" by simp
    then show "messages = []" by (simp only: concat_batches)
  next
    assume "messages = []"
    then have "length (batches messages) = 0" by (simp add: length_batches)
    then show "batches messages = []" by simp
  qed
  moreover have "\<forall>b \<in> set (batches messages). length b \<le> 10"
    using length_batch [of _ messages] by (simp add: BATCH_SIZE_def)
  ultimately show ?thesis by (simp only: length_batches concat_batches simp_thms)
qed

theorem batches_chunking_witness:
  "length (batches ''abcdefghijklmnopqrstuvw'') = 3
   \<and> batches ''abcdefghijklmnopqrstuvw'' \<noteq> []
   \<and> list_all (\<lambda>b. length b \<le> 10) (batches ''abcdefghijklmnopqrstuvw'')
   \<and> concat (batches ''abcdefghijklmnopqrstuvw'') = ''abcdefghijklmnopqrstuvw''"
  using batches_chunking [of "''abcdefghijklmnopqrstuvw''"] by (simp add: list_all_iff)

section \<open>Properties of classification\<close>

lemma truthy_and_in_QUEUE_MAPPINGS:
  "truthy_and_in q (QUEUE_MAPPINGS cfg) =
     (if truthy q \<and> unhashable q then Inl TypeError else Inr (known_category q))"
  by (cases q) (auto simp: truthy_and_in_def py_in_def QUEUE_MAPPINGS_def known_category_def)

lemma determine_queue_type_JObj:
  "determine_queue_type cfg (JObj d) =
     (if truthy (dict_get d ''queueType'' JNull) \<and> unhashable (dict_get d ''queueType'' JNull)
      then Inl TypeError
      else if known_category (dict_get d ''queueType'' JNull)
      then Inr (dict_get d ''queueType'' JNull)
      else threshold_ladder (application_count d))"
  by (simp add: Let_def truthy_and_in_QUEUE_MAPPINGS)

lemma known_category_hashable: "known_category q \<Longrightarrow> \<not> unhashable q"
  by (auto simp: known_category_def)

lemma threshold_ladder_int:
  "threshold_ladder (JInt n) =
     Inr (JStr (if n \<le> 50 then ''SMALL'' else if n \<le> 200 then ''MEDIUM'' else ''LARGE''))"
  by (simp add: threshold_ladder_def)

lemma threshold_ladder_float:
  "threshold_ladder (JFloat (Finite x)) =
     Inr (JStr (if x \<le> 50 then ''SMALL'' else if x \<le> 200 then ''MEDIUM'' else ''LARGE''))"
  by (simp add: threshold_ladder_def)

lemma threshold_ladder_not_numeric: "\<not> numeric v \<Longrightarrow> threshold_ladder v = Inl TypeError"
  by (cases v) (simp_all add: threshold_ladder_def)

lemma threshold_ladder_numeric: "numeric v \<Longrightarrow> \<exists>q. threshold_ladder v = Inr q"
  by (cases v) (simp_all add: threshold_ladder_def split: bool.splits)

lemma threshold_ladder_known: "threshold_ladder v = Inr q \<Longrightarrow> known_category q"
  by (auto simp: threshold_ladder_def known_category_def split: sum.splits bool.splits)

lemma determine_queue_type_returns_category:
  "determine_queue_type cfg m = Inr q \<Longrightarrow> known_category q"
  by (cases m)
    (auto simp: determine_queue_type_JObj threshold_ladder_known
       simp del: determine_queue_type.simps(1) split: if_splits)

lemma determine_queue_type_classifiable:
  "classifiable m \<Longrightarrow> \<exists>q. determine_queue_type cfg m = Inr q"
  by (cases m)
    (auto simp: determine_queue_type_JObj known_category_hashable threshold_ladder_numeric
       simp del: determine_queue_type.simps(1))

text \<open>
  C1 (as amended). A message whose \<^verbatim>\<open>queueType\<close> is one of \<^verbatim>\<open>SMALL\<close>,
  \<^verbatim>\<open>MEDIUM\<close>, \<^verbatim>\<open>LARGE\<close> is classified as that value, whatever its counts. For any
  other message whose \<^verbatim>\<open>queueType\<close> is absent, falsy or hashable, with the count read
  from \<^verbatim>\<open>applicationCount\<close>, else from \<^verbatim>\<open>NumberOfApplications\<close>, else 0: an integer
  count \<open>n\<close> gives \<^verbatim>\<open>SMALL\<close> iff \<open>n \<le> 50\<close>, \<^verbatim>\<open>MEDIUM\<close> iff \<open>51 \<le> n \<le> 200\<close>,
  \<^verbatim>\<open>LARGE\<close> iff \<open>n > 200\<close>; a finite float count \<open>x\<close> gives \<^verbatim>\<open>SMALL\<close> iff
  \<open>x \<le> 50\<close>, \<^verbatim>\<open>MEDIUM\<close> iff \<open>50 < x \<le> 200\<close>, \<^verbatim>\<open>LARGE\<close> iff \<open>x > 200\<close>.
\<close>

theorem determine_queue_type_classification:
  "(known_category (dict_get d ''queueType'' JNull) \<longrightarrow>
      determine_queue_type cfg (JObj d) = Inr (dict_get d ''queueType'' JNull))
   \<and> (\<not> known_category (dict_get d ''queueType'' JNull)
        \<and> \<not> (truthy (dict_get d ''queueType'' JNull)
              \<and> unhashable (dict_get d ''queueType'' JNull))
        \<and> application_count d = JInt n \<longrightarrow>
          (determine_queue_type cfg (JObj d) = Inr (JStr ''SMALL'') \<longleftrightarrow> n \<le> 50)
        \<and> (determine_queue_type cfg (JObj d) = Inr (JStr ''MEDIUM'') \<longleftrightarrow> 51 \<le> n \<and> n \<le> 200)
        \<and> (determine_queue_type cfg (JObj d) = Inr (JStr ''LARGE'') \<longleftrightarrow> 200 < n))
   \<and> (\<not> known_category (dict_get d ''queueType'' JNull)
        \<and> \<not> (truthy (dict_get d ''queueType'' JNull)
              \<and> unhashable (dict_get d ''queueType'' JNull))
        \<and> application_count d = JFloat (Finite x) \<longrightarrow>
          (determine_queue_type cfg (JObj d) = Inr (JStr ''SMALL'') \<longleftrightarrow> x \<le> 50)
        \<and> (determine_queue_type cfg (JObj d) = Inr (JStr ''MEDIUM'') \<longleftrightarrow> 50 < x \<and> x \<le> 200)
        \<and> (determine_queue_type cfg (JObj d) = Inr (JStr ''LARGE'') \<longleftrightarrow> 200 < x))"
proof (intro conjI impI)
  assume "known_category (dict_get d ''queueType'' JNull)"
  then show "determine_queue_type cfg (JObj d) = Inr (dict_get d ''queueType'' JNull)"
    by (simp add: determine_queue_type_JObj known_category_hashable
          del: determine_queue_type.simps)
next
  assume a: "\<not> known_category (dict_get d ''queueType'' JNull)
      \<and> \<not> (truthy (dict_get d ''queueType'' JNull) \<and> unhashable (dict_get d ''queueType'' JNull))
      \<and> application_count d = JInt n"
  then have r: "determine_queue_type cfg (JObj d) =
      Inr (JStr (if n \<le> 50 then ''SMALL'' else if n \<le> 200 then ''MEDIUM'' else ''LARGE''))"
    by (simp add: determine_queue_type_JObj threshold_ladder_int del: determine_queue_type.simps)
  show "determine_queue_type cfg (JObj d) = Inr (JStr ''SMALL'') \<longleftrightarrow> n \<le> 50"
    unfolding r by simp
  show "determine_queue_type cfg (JObj d) = Inr (JStr ''MEDIUM'') \<longleftrightarrow> 51 \<le> n \<and> n \<le> 200"
    unfolding r by auto
  show "determine_queue_type cfg (JObj d) = Inr (JStr ''LARGE'') \<longleftrightarrow> 200 < n"
    unfolding r by auto
next
  assume a: "\<not> known_category (dict_get d ''queueType'' JNull)
      \<and> \<not> (truthy (dict_get d ''queueType'' JNull) \<and> unhashable (dict_get d ''queueType'' JNull))
      \<and> application_count d = JFloat (Finite x)"
  then have r: "determine_queue_type cfg (JObj d) =
      Inr (JStr (if x \<le> 50 then ''SMALL'' else if x \<le> 200 then ''MEDIUM'' else ''LARGE''))"
    by (simp add: determine_queue_type_JObj threshold_ladder_float del: determine_queue_type.simps)
  show "determine_queue_type cfg (JObj d) = Inr (JStr ''SMALL'') \<longleftrightarrow> x \<le> 50"
    unfolding r by simp
  show "determine_queue_type cfg (JObj d) = Inr (JStr ''MEDIUM'') \<longleftrightarrow> 50 < x \<and> x \<le> 200"
    unfolding r by auto
  show "determine_queue_type cfg (JObj d) = Inr (JStr ''LARGE'') \<longleftrightarrow> 200 < x"
    unfolding r by auto
qed

text \<open>The theorem at the message of \<^verbatim>\<open>test_existing_queue_type\<close>, at the integer
  count 51, and at the float count 200.5 under an unknown \<^verbatim>\<open>queueType\<close>.\<close>

theorem determine_queue_type_classification_witness:
  "determine_queue_type test_config
     (JObj [(''queueType'', JStr ''LARGE''), (''applicationCount'', JInt 150)])
     = Inr (JStr ''LARGE'')
   \<and> determine_queue_type test_config (JObj [(''applicationCount'', JInt 51)])
     = Inr (JStr ''MEDIUM'')
   \<and> determine_queue_type test_config
     (JObj [(''queueType'', JStr ''HUGE''), (''NumberOfApplications'', JFloat (Finite (401 / 2)))])
     = Inr (JStr ''LARGE'')"
  using determine_queue_type_classification
          [of "[(''queueType'', JStr ''LARGE''), (''applicationCount'', JInt 150)]" test_config 0 0]
        determine_queue_type_classification
          [of "[(''applicationCount'', JInt 51)]" test_config 51 0]
        determine_queue_type_classification
          [of "[(''queueType'', JStr ''HUGE''), (''NumberOfApplications'', JFloat (Finite (401 / 2)))]"
              test_config 0 "401 / 2"]
  by (simp add: dict_get_def application_count_def known_category_def
        del: determine_queue_type.simps)

text \<open>
  C1 as stated fails on two messages. A non-empty list as \<^verbatim>\<open>queueType\<close> makes the
  membership test \<^verbatim>\<open>queue_type in QUEUE_MAPPINGS\<close> raise \<^verbatim>\<open>TypeError\<close>, although
  the count 10 is at most 50. The count 50.5 is classified \<^verbatim>\<open>MEDIUM\<close>, although it is
  not between 51 and 200.
\<close>

theorem determine_queue_type_classification_counterexample:
  "determine_queue_type test_config
     (JObj [(''queueType'', JList [JStr ''x'']), (''applicationCount'', JInt 10)])
     = Inl TypeError
   \<and> \<not> (determine_queue_type test_config
           (JObj [(''queueType'', JList [JStr ''x'']), (''applicationCount'', JInt 10)])
           = Inr (JStr ''SMALL'') \<longleftrightarrow> (10::int) \<le> 50)
   \<and> determine_queue_type test_config (JObj [(''applicationCount'', JFloat (Finite (101 / 2)))])
     = Inr (JStr ''MEDIUM'')
   \<and> \<not> (determine_queue_type test_config
           (JObj [(''applicationCount'', JFloat (Finite (101 / 2)))])
           = Inr (JStr ''MEDIUM'') \<longleftrightarrow> 51 \<le> (101 / 2 :: rat) \<and> (101 / 2 :: rat) \<le> 200)"
  by (simp add: determine_queue_type_JObj dict_get_def application_count_def known_category_def
        threshold_ladder_def del: determine_queue_type.simps)

section \<open>Properties of grouping\<close>

lemma routing_errors_append: "routing_errors (a @ b) = routing_errors a @ routing_errors b"
  by (induction a rule: routing_errors.induct) simp_all

lemma messages_processed_append:
  "messages_processed (a @ b) = messages_processed a @ messages_processed b"
  by (induction a rule: messages_processed.induct) simp_all

lemma batch_sizes_append: "batch_sizes (a @ b) = batch_sizes a @ batch_sizes b"
  by (induction a rule: batch_sizes.induct) simp_all

lemma sqs_calls_append: "sqs_calls (a @ b) = sqs_calls a @ sqs_calls b"
  by (induction a rule: sqs_calls.induct) simp_all

lemma map_fst_dict_set: "k \<in> set (map fst d) \<Longrightarrow> map fst (dict_set d k v) = map fst d"
  by (induction d k v rule: dict_set.induct) auto

lemma map_of_dict_set: "map_of (dict_set d k v) k = Some v"
  by (induction d k v rule: dict_set.induct) auto

lemma set_dict_set: "set (dict_set d k v) \<subseteq> insert (k, v) (set d)"
  by (induction d k v rule: dict_set.induct) auto

lemma grouped_total_dict_set:
  "map_of g k = Some l \<Longrightarrow> grouped_total (dict_set g k (l @ [m])) = Suc (grouped_total g)"
  by (induction g k "l @ [m]" rule: dict_set.induct) (auto simp: grouped_total_def)

lemma tagged_dict_set:
  assumes "tagged g" and "map_of g c = Some l" and "map_of d ''queueType'' = Some (JStr c)"
  shows "tagged (dict_set g c (l @ [JObj d]))"
proof -
  have "(c, l) \<in> set g" using assms(2) by (rule map_of_SomeD)
  with assms(1) have old: "\<forall>m \<in> set l. \<exists>d. m = JObj d \<and> map_of d ''queueType'' = Some (JStr c)"
    by (force simp: tagged_def)
  show ?thesis
    unfolding tagged_def
  proof (intro ballI)
    fix kv m assume kv: "kv \<in> set (dict_set g c (l @ [JObj d]))" and m: "m \<in> set (snd kv)"
    from kv set_dict_set have "kv = (c, l @ [JObj d]) \<or> kv \<in> set g" by fastforce
    then show "\<exists>d. m = JObj d \<and> map_of d ''queueType'' = Some (JStr (fst kv))"
    proof
      assume "kv = (c, l @ [JObj d])"
      with m old assms(3) show ?thesis by auto
    next
      assume "kv \<in> set g"
      with m assms(1) show ?thesis by (auto simp: tagged_def)
    qed
  qed
qed

lemma known_category_cases:
  "known_category q \<Longrightarrow> \<exists>c. q = JStr c \<and> c \<in> {''SMALL'', ''MEDIUM'', ''LARGE''}"
  by (auto simp: known_category_def)

lemma determine_queue_type_JObj_only:
  "determine_queue_type cfg m = Inr q \<Longrightarrow> \<exists>d. m = JObj d"
  by (cases m) simp_all

text \<open>One turn of the loop on a message that classification accepts.\<close>

lemma route_loop_step:
  assumes q: "determine_queue_type cfg m = Inr q"
    and keys: "map fst grouped = [''SMALL'', ''MEDIUM'', ''LARGE'']"
  shows "\<exists>d c l. m = JObj d \<and> q = JStr c \<and> map_of grouped c = Some l \<and>
           route_loop cfg (m # rest) grouped tr =
             route_loop cfg rest
               (dict_set grouped c (l @ [JObj (dict_set d ''queueType'' (JStr c))]))
               (tr @ [MessagesProcessed (JStr c)])"
proof -
  from q obtain d where d: "m = JObj d" using determine_queue_type_JObj_only by blast
  from q have "known_category q" by (rule determine_queue_type_returns_category)
  then obtain c where c: "q = JStr c" "c \<in> {''SMALL'', ''MEDIUM'', ''LARGE''}"
    using known_category_cases by blast
  from c(2) keys have mem: "c \<in> set (map fst grouped)" by auto
  then obtain l where l: "map_of grouped c = Some l"
    by (metis map_of_eq_None_iff not_Some_eq set_map)
  from c(2) have ne: "c \<noteq> []" by auto
  have t: "truthy_and_in q grouped = Inr True"
    using mem ne by (simp add: truthy_and_in_def py_in_def c(1))
  have a: "dict_append grouped q (JObj (dict_set d ''queueType'' q))
      = Inr (dict_set grouped c (l @ [JObj (dict_set d ''queueType'' q)]))"
    by (simp add: dict_append_def c(1) l)
  have "route_loop cfg (m # rest) grouped tr =
      route_loop cfg rest (dict_set grouped c (l @ [JObj (dict_set d ''queueType'' (JStr c))]))
        (tr @ [MessagesProcessed (JStr c)])"
    using q t a by (simp add: d c(1) del: determine_queue_type.simps)
  with d c(1) l show ?thesis by blast
qed


lemma route_loop_raises:
  "determine_queue_type cfg m = Inl e \<Longrightarrow> route_loop cfg (m # rest) grouped tr = (Inl e, tr)"
  by (simp del: determine_queue_type.simps)

text \<open>What the loop keeps true, whether it ends or raises.\<close>

lemma route_loop_observations:
  "map fst grouped = [''SMALL'', ''MEDIUM'', ''LARGE''] \<Longrightarrow>
   routing_errors (snd (route_loop cfg ms grouped tr)) = routing_errors tr
   \<and> sqs_calls (snd (route_loop cfg ms grouped tr)) = sqs_calls tr
   \<and> batch_sizes (snd (route_loop cfg ms grouped tr)) = batch_sizes tr"
proof (induction ms arbitrary: grouped tr)
  case Nil
  show ?case by simp
next
  case (Cons m rest)
  show ?case
  proof (cases "determine_queue_type cfg m")
    case (Inl e)
    then show ?thesis by (simp only: route_loop_raises snd_conv simp_thms)
  next
    case (Inr q)
    from route_loop_step [OF Inr Cons.prems, of rest tr] obtain d c l where
      l: "map_of grouped c = Some l" and
      step: "route_loop cfg (m # rest) grouped tr =
          route_loop cfg rest (dict_set grouped c (l @ [JObj (dict_set d ''queueType'' (JStr c))]))
            (tr @ [MessagesProcessed (JStr c)])"
      by blast
    from l have "c \<in> set (map fst grouped)" by (metis map_of_eq_None_iff option.distinct(1) set_map)
    then have keys: "map fst (dict_set grouped c (l @ [JObj (dict_set d ''queueType'' (JStr c))]))
        = [''SMALL'', ''MEDIUM'', ''LARGE'']"
      using Cons.prems by (simp only: map_fst_dict_set)
    show ?thesis
      unfolding step using Cons.IH [OF keys, of "tr @ [MessagesProcessed (JStr c)]"]
      by (simp add: routing_errors_append sqs_calls_append batch_sizes_append)
  qed
qed

lemma route_loop_returns:
  "map fst grouped = [''SMALL'', ''MEDIUM'', ''LARGE''] \<Longrightarrow>
   route_loop cfg ms grouped tr = (Inr g, tr') \<Longrightarrow>
   map fst g = [''SMALL'', ''MEDIUM'', ''LARGE'']
   \<and> grouped_total g = grouped_total grouped + length ms
   \<and> (tagged grouped \<longrightarrow> tagged g)
   \<and> length (messages_processed tr') = length (messages_processed tr) + length ms"
proof (induction ms arbitrary: grouped tr)
  case Nil
  then show ?case by simp
next
  case (Cons m rest)
  show ?case
  proof (cases "determine_queue_type cfg m")
    case (Inl e)
    with Cons.prems(2) show ?thesis by (simp only: route_loop_raises) simp
  next
    case (Inr q)
    from route_loop_step [OF Inr Cons.prems(1), of rest tr] obtain d c l where
      l: "map_of grouped c = Some l" and
      step: "route_loop cfg (m # rest) grouped tr =
          route_loop cfg rest (dict_set grouped c (l @ [JObj (dict_set d ''queueType'' (JStr c))]))
            (tr @ [MessagesProcessed (JStr c)])"
      by blast
    let ?g = "dict_set grouped c (l @ [JObj (dict_set d ''queueType'' (JStr c))])"
    from l have "c \<in> set (map fst grouped)" by (metis map_of_eq_None_iff option.distinct(1) set_map)
    then have keys: "map fst ?g = [''SMALL'', ''MEDIUM'', ''LARGE'']"
      using Cons.prems(1) by (simp only: map_fst_dict_set)
    have total: "grouped_total ?g = Suc (grouped_total grouped)"
      using l by (rule grouped_total_dict_set)
    have tag: "tagged grouped \<Longrightarrow> tagged ?g"
      by (rule tagged_dict_set [OF _ l map_of_dict_set])
    have rest: "route_loop cfg rest ?g (tr @ [MessagesProcessed (JStr c)]) = (Inr g, tr')"
      using Cons.prems(2) by (simp only: step)
    from Cons.IH [OF keys rest] total tag show ?thesis
      by (simp add: messages_processed_append)
  qed
qed

lemma route_loop_classifiable:
  "map fst grouped = [''SMALL'', ''MEDIUM'', ''LARGE''] \<Longrightarrow>
   \<forall>m \<in> set ms. classifiable m \<Longrightarrow>
   \<exists>g tr'. route_loop cfg ms grouped tr = (Inr g, tr')"
proof (induction ms arbitrary: grouped tr)
  case Nil
  show ?case by simp
next
  case (Cons m rest)
  from Cons.prems(2) have "classifiable m" by simp
  then obtain q where q: "determine_queue_type cfg m = Inr q"
    using determine_queue_type_classifiable by blast
  from route_loop_step [OF q Cons.prems(1), of rest tr] obtain d c l where
    l: "map_of grouped c = Some l" and
    step: "route_loop cfg (m # rest) grouped tr =
        route_loop cfg rest (dict_set grouped c (l @ [JObj (dict_set d ''queueType'' (JStr c))]))
          (tr @ [MessagesProcessed (JStr c)])"
    by blast
  from l have "c \<in> set (map fst grouped)" by (metis map_of_eq_None_iff option.distinct(1) set_map)
  then have keys: "map fst (dict_set grouped c (l @ [JObj (dict_set d ''queueType'' (JStr c))]))
      = [''SMALL'', ''MEDIUM'', ''LARGE'']"
    using Cons.prems(1) by (simp only: map_fst_dict_set)
  from Cons.prems(2) have "\<forall>m \<in> set rest. classifiable m" by simp
  from Cons.IH [OF keys this] show ?case unfolding step .
qed

lemma route_initial_keys:
  "map fst [(''SMALL'', []), (''MEDIUM'', []), (''LARGE'', [])] = [''SMALL'', ''MEDIUM'', ''LARGE'']"
  by simp

text \<open>
  C3 (as amended). For every list of \<open>n\<close> messages, each a JSON object with a known
  \<^verbatim>\<open>queueType\<close>, or with a numeric count and a \<^verbatim>\<open>queueType\<close> that is absent, falsy
  or hashable, \<^verbatim>\<open>route_messages_by_queue_type\<close> returns a dict with exactly the keys
  \<^verbatim>\<open>SMALL\<close>, \<^verbatim>\<open>MEDIUM\<close>, \<^verbatim>\<open>LARGE\<close>, whose lists hold \<open>n\<close> messages in all, and
  every message in the list of a key has that key as its \<^verbatim>\<open>queueType\<close>.
\<close>

theorem route_messages_by_queue_type_groups:
  assumes "\<forall>m \<in> set parsed_messages. classifiable m"
  shows "\<exists>grouped tr.
           route_messages_by_queue_type cfg parsed_messages = (Inr grouped, tr)
           \<and> map fst grouped = [''SMALL'', ''MEDIUM'', ''LARGE'']
           \<and> grouped_total grouped = length parsed_messages
           \<and> tagged grouped"
proof -
  from route_loop_classifiable [OF route_initial_keys assms, of cfg "[]"]
  obtain grouped tr where
    r: "route_loop cfg parsed_messages [(''SMALL'', []), (''MEDIUM'', []), (''LARGE'', [])] []
          = (Inr grouped, tr)"
    by blast
  have "tagged [(''SMALL'', []), (''MEDIUM'', []), (''LARGE'', [])]"
    by (simp add: tagged_def)
  with route_loop_returns [OF route_initial_keys r]
  have "map fst grouped = [''SMALL'', ''MEDIUM'', ''LARGE'']
      \<and> grouped_total grouped = length parsed_messages \<and> tagged grouped"
    by (simp add: grouped_total_def)
  with r show ?thesis by (simp add: route_messages_by_queue_type_def)
qed

text \<open>The theorem at the three messages of \<^verbatim>\<open>test_route_mixed_messages\<close>.\<close>

theorem route_messages_by_queue_type_groups_witness:
  "\<exists>grouped tr.
     route_messages_by_queue_type test_config
       [JObj [(''productId'', JInt 1), (''applicationCount'', JInt 25)],
        JObj [(''productId'', JInt 2), (''applicationCount'', JInt 100)],
        JObj [(''productId'', JInt 3), (''applicationCount'', JInt 300)]]
       = (Inr grouped, tr)
     \<and> map fst grouped = [''SMALL'', ''MEDIUM'', ''LARGE'']
     \<and> grouped_total grouped = 3
     \<and> tagged grouped"
  using route_messages_by_queue_type_groups
          [of "[JObj [(''productId'', JInt 1), (''applicationCount'', JInt 25)],
                JObj [(''productId'', JInt 2), (''applicationCount'', JInt 100)],
                JObj [(''productId'', JInt 3), (''applicationCount'', JInt 300)]]" test_config]
  by (simp add: dict_get_def application_count_def known_category_def numeral_3_eq_3)

text \<open>
  C3 as stated fails on a message with the numeric count 10 whose \<^verbatim>\<open>queueType\<close> is a
  non-empty list: the membership test of the classification raises \<^verbatim>\<open>TypeError\<close>,
  and the grouping returns no dict.
\<close>

theorem route_messages_by_queue_type_groups_counterexample:
  "numeric (application_count [(''queueType'', JList [JStr ''x'']), (''applicationCount'', JInt 10)])
   \<and> route_messages_by_queue_type test_config
       [JObj [(''queueType'', JList [JStr ''x'']), (''applicationCount'', JInt 10)]]
     = (Inl TypeError, [])"
  by (simp add: route_messages_by_queue_type_def determine_queue_type_JObj dict_get_def
        application_count_def del: determine_queue_type.simps)

text \<open>
  C7 (as amended). Whenever \<^verbatim>\<open>determine_queue_type\<close> returns, it returns one of the
  three categories; on a message without a known \<^verbatim>\<open>queueType\<close> whose count is not
  numeric (a string, null, a list or an object) it raises \<^verbatim>\<open>TypeError\<close>, with no
  coercion to 0; and the grouping never takes its branch for an undetermined queue type:
  it records no routing error.
\<close>

theorem determine_queue_type_results:
  "(determine_queue_type cfg m = Inr q \<longrightarrow> known_category q)
   \<and> (\<not> known_category (dict_get d ''queueType'' JNull) \<and> \<not> numeric (application_count d) \<longrightarrow>
        determine_queue_type cfg (JObj d) = Inl TypeError)
   \<and> routing_errors (snd (route_messages_by_queue_type cfg parsed_messages)) = []"
proof (intro conjI impI)
  assume "determine_queue_type cfg m = Inr q"
  then show "known_category q" by (rule determine_queue_type_returns_category)
next
  assume "\<not> known_category (dict_get d ''queueType'' JNull) \<and> \<not> numeric (application_count d)"
  then show "determine_queue_type cfg (JObj d) = Inl TypeError"
    by (simp add: determine_queue_type_JObj threshold_ladder_not_numeric
          del: determine_queue_type.simps)
next
  show "routing_errors (snd (route_messages_by_queue_type cfg parsed_messages)) = []"
    using route_loop_observations [OF route_initial_keys, of cfg parsed_messages "[]"]
    by (simp add: route_messages_by_queue_type_def)
qed

text \<open>The theorem at the count 25, at a null count, and at the grouping of one message.\<close>

theorem determine_queue_type_results_witness:
  "determine_queue_type test_config (JObj [(''applicationCount'', JInt 25)]) = Inr (JStr ''SMALL'')
   \<and> known_category (JStr ''SMALL'')
   \<and> determine_queue_type test_config (JObj [(''applicationCount'', JNull)]) = Inl TypeError
   \<and> routing_errors (snd (route_messages_by_queue_type test_config
        [JObj [(''applicationCount'', JInt 25)]])) = []"
  using determine_queue_type_results
          [of test_config "JObj [(''applicationCount'', JInt 25)]" "JStr ''SMALL''"
              "[(''applicationCount'', JNull)]" "[JObj [(''applicationCount'', JInt 25)]]"]
  by (simp add: determine_queue_type_JObj dict_get_def application_count_def known_category_def
        threshold_ladder_def del: determine_queue_type.simps)

text \<open>C7 as stated fails on a message whose count is a string: the comparison
  \<^verbatim>\<open>app_count <= 50\<close> raises \<^verbatim>\<open>TypeError\<close>.\<close>

theorem determine_queue_type_results_counterexample:
  "determine_queue_type test_config (JObj [(''applicationCount'', JStr ''abc'')]) = Inl TypeError"
  by (simp add: determine_queue_type_JObj dict_get_def application_count_def known_category_def
        threshold_ladder_def del: determine_queue_type.simps)

section \<open>Properties of decoding\<close>

lemma quiet_append: "quiet (a @ b) \<longleftrightarrow> quiet a \<and> quiet b"
  by (auto simp: quiet_def messages_processed_append batch_sizes_append sqs_calls_append)

lemma decode_value_stages:
  "decode_value col (JStr s) =
     (case b64decode col s of
        Inl e \<Rightarrow> Inl e
      | Inr decoded_bytes \<Rightarrow>
          (case utf8_decode col decoded_bytes of
             Inl e \<Rightarrow> Inl e
           | Inr message_str \<Rightarrow> json_loads col message_str))"
  by (simp add: decode_value_def)

lemma parse_kafka_message_empty:
  "\<not> truthy (dict_get d ''value'' (JStr [])) \<Longrightarrow>
   parse_kafka_message col (JObj d) = (None, [Log WARNING ''Empty message value in record''])"
  by (simp add: parse_kafka_message_def)

lemma parse_kafka_message_malformed:
  "truthy (dict_get d ''value'' (JStr [])) \<Longrightarrow>
   decode_value col (dict_get d ''value'' (JStr [])) = Inl e \<Longrightarrow>
   parse_kafka_message col (JObj d) =
     (None, [Log ERROR ''Failed to parse Kafka message'', RoutingErrors ''parse_error''])"
  by (simp add: parse_kafka_message_def parse_failed_def)

lemma parse_kafka_message_quiet: "quiet (snd (parse_kafka_message col r))"
  by (cases r)
    (auto simp: parse_kafka_message_def parse_failed_def quiet_def split: sum.splits)

lemma parse_records_quiet:
  "quiet tr \<Longrightarrow> quiet (snd (parse_records col rs parsed tr))"
proof (induction rs arbitrary: parsed tr)
  case Nil
  then show ?case by simp
next
  case (Cons r rs)
  obtain pm tr' where p: "parse_kafka_message col r = (pm, tr')" by (cases "parse_kafka_message col r")
  then have "quiet tr'" using parse_kafka_message_quiet [of col r] by simp
  with Cons.prems have "quiet (tr @ tr')" by (simp add: quiet_append)
  from Cons.IH [OF this] show ?case by (simp add: p)
qed

lemma parse_partitions_quiet:
  "quiet tr \<Longrightarrow> quiet (snd (parse_partitions col ps parsed tr))"
proof (induction ps arbitrary: parsed tr)
  case Nil
  then show ?case by simp
next
  case (Cons p ps)
  obtain tp records where p: "p = (tp, records)" by (cases p)
  from Cons.prems have q: "quiet (tr @ [Log DEBUG ''Processing partition''])"
    by (simp add: quiet_append) (simp add: quiet_def)
  show ?case
  proof (cases "py_len records")
    case (Inl e)
    with Cons.prems show ?thesis by (simp add: p)
  next
    case len: (Inr n)
    show ?thesis
    proof (cases "py_iter records")
      case (Inl e)
      with len q show ?thesis by (simp add: p)
    next
      case (Inr rs)
      obtain parsed' tr' where
        r: "parse_records col rs parsed (tr @ [Log DEBUG ''Processing partition'']) = (parsed', tr')"
        by (cases "parse_records col rs parsed (tr @ [Log DEBUG ''Processing partition''])")
      with parse_records_quiet [OF q, of col rs parsed] have "quiet tr'" by simp
      from Cons.IH [OF this] show ?thesis by (simp add: p len Inr r)
    qed
  qed
qed

lemma decode_phase_quiet: "quiet (snd (decode_phase col event))"
proof -
  have q: "quiet [Log INFO ''Processing MSK event'']" by (simp add: quiet_def)
  have e: "quiet []" by (simp add: quiet_def)
  show ?thesis
    using parse_partitions_quiet [OF q] q e
    by (auto simp: decode_phase_def split: sum.splits)
qed


text \<open>
  C6 (as amended). For a record whose \<^verbatim>\<open>value\<close> is absent or empty,
  \<^verbatim>\<open>parse_kafka_message\<close> yields no message, logs one warning and records no routing
  error. For a record whose \<^verbatim>\<open>value\<close> is a non-empty string on which the base64
  decoding, the UTF-8 decoding or the JSON parsing fails, it yields no message and records
  exactly one routing error, tagged \<^verbatim>\<open>parse_error\<close>.
\<close>

theorem parse_kafka_message_drops:
  "(\<not> truthy (dict_get d ''value'' (JStr [])) \<longrightarrow>
      parse_kafka_message col (JObj d) = (None, [Log WARNING ''Empty message value in record''])
      \<and> routing_errors (snd (parse_kafka_message col (JObj d))) = [])
   \<and> (dict_get d ''value'' (JStr []) = JStr s \<and> s \<noteq> []
        \<and> (b64decode col s = Inl e
            \<or> (\<exists>decoded_bytes. b64decode col s = Inr decoded_bytes
                 \<and> (utf8_decode col decoded_bytes = Inl e
                     \<or> (\<exists>message_str. utf8_decode col decoded_bytes = Inr message_str
                          \<and> json_loads col message_str = Inl e)))) \<longrightarrow>
      fst (parse_kafka_message col (JObj d)) = None
      \<and> routing_errors (snd (parse_kafka_message col (JObj d))) = [''parse_error''])"
proof (intro conjI impI)
  assume a: "\<not> truthy (dict_get d ''value'' (JStr []))"
  then show "parse_kafka_message col (JObj d) = (None, [Log WARNING ''Empty message value in record''])"
    by (rule parse_kafka_message_empty)
  then show "routing_errors (snd (parse_kafka_message col (JObj d))) = []"
    by simp
next
  assume a: "dict_get d ''value'' (JStr []) = JStr s \<and> s \<noteq> []
        \<and> (b64decode col s = Inl e
            \<or> (\<exists>decoded_bytes. b64decode col s = Inr decoded_bytes
                 \<and> (utf8_decode col decoded_bytes = Inl e
                     \<or> (\<exists>message_str. utf8_decode col decoded_bytes = Inr message_str
                          \<and> json_loads col message_str = Inl e))))"
  then have "decode_value col (JStr s) = Inl e"
    by (auto simp: decode_value_stages)
  with a have p: "parse_kafka_message col (JObj d) =
      (None, [Log ERROR ''Failed to parse Kafka message'', RoutingErrors ''parse_error''])"
    by (intro parse_kafka_message_malformed) simp_all
  show "fst (parse_kafka_message col (JObj d)) = None" unfolding p by simp
  show "routing_errors (snd (parse_kafka_message col (JObj d))) = [''parse_error'']"
    unfolding p by simp
qed

text \<open>The theorem at a record without \<^verbatim>\<open>value\<close>, and at the record of
  \<^verbatim>\<open>test_parse_invalid_json\<close>, whose text the JSON parser rejects.\<close>

theorem parse_kafka_message_drops_witness:
  "parse_kafka_message (example_collaborators []) (JObj [])
     = (None, [Log WARNING ''Empty message value in record''])
   \<and> fst (parse_kafka_message (example_collaborators []) (JObj [(''value'', JStr payload_invalid)]))
     = None
   \<and> routing_errors
       (snd (parse_kafka_message (example_collaborators []) (JObj [(''value'', JStr payload_invalid)])))
     = [''parse_error'']"
  using parse_kafka_message_drops [of "[]" "example_collaborators []" "''x''" BinasciiError]
        parse_kafka_message_drops
          [of "[(''value'', JStr payload_invalid)]" "example_collaborators []" payload_invalid
              JSONDecodeError]
  by (simp add: dict_get_def example_collaborators_def payload_invalid_def payload_75_def
        payload_many_def payload_300_def text_invalid_def text_75_def text_many_def text_300_def
        quoted_def)

text \<open>C6 as stated fails on the record of \<^verbatim>\<open>test_parse_empty_message\<close>: the only
  observation is a warning of the logger, and no routing error is recorded.\<close>

theorem parse_kafka_message_drops_counterexample:
  "parse_kafka_message (example_collaborators []) (JObj [(''value'', JStr [])])
     = (None, [Log WARNING ''Empty message value in record''])
   \<and> routing_errors [Log WARNING ''Empty message value in record''] = []"
  by (simp add: parse_kafka_message_def dict_get_def)

section \<open>Properties of the handler\<close>

lemma handler_body_no_messages:
  "decode_phase col event = (Inr [], tr) \<Longrightarrow>
   handler_body cfg col event =
     (Inr \<lparr>statusCode = 200, processedMessages = Some 0, queueDistribution = None, error = None\<rparr>,
      tr @ [Log INFO ''Parsed messages from MSK'', Log WARNING ''No valid messages to process''])"
  by (simp add: handler_body_def)

text \<open>
  C5 (as amended). Whenever the parsing loop of the handler ends with no message kept,
  the handler returns \<^verbatim>\<open>{"statusCode": 200, "processedMessages": 0}\<close>, a response
  without the key \<^verbatim>\<open>queueDistribution\<close>, and neither groups nor dispatches: it
  observes no processed message, no batch size and no call of SQS.
\<close>

theorem lambda_handler_no_messages:
  assumes "decode_phase col event = (Inr [], tr)"
  shows "lambda_handler cfg col event =
     (\<lparr>statusCode = 200, processedMessages = Some 0, queueDistribution = None, error = None\<rparr>,
      tr @ [Log INFO ''Parsed messages from MSK'', Log WARNING ''No valid messages to process''])
   \<and> quiet (snd (lambda_handler cfg col event))"
proof -
  have r: "lambda_handler cfg col event =
     (\<lparr>statusCode = 200, processedMessages = Some 0, queueDistribution = None, error = None\<rparr>,
      tr @ [Log INFO ''Parsed messages from MSK'', Log WARNING ''No valid messages to process''])"
    using handler_body_no_messages [OF assms] by (simp add: lambda_handler_def)
  have "quiet tr" using decode_phase_quiet [of col event] assms by simp
  then have "quiet (tr @ [Log INFO ''Parsed messages from MSK'',
      Log WARNING ''No valid messages to process''])"
    by (simp add: quiet_append) (simp add: quiet_def)
  with r show ?thesis by simp
qed

text \<open>The theorem at an event with an empty record and a record that is no JSON.\<close>

theorem lambda_handler_no_messages_witness:
  "decode_phase (example_collaborators []) (event_of [JStr [], JStr payload_invalid])
     = (Inr [], [Log INFO ''Processing MSK event'', Log DEBUG ''Processing partition'',
                 Log WARNING ''Empty message value in record'',
                 Log ERROR ''Failed to parse Kafka message'', RoutingErrors ''parse_error''])
   \<and> fst (lambda_handler test_config (example_collaborators [])
            (event_of [JStr [], JStr payload_invalid]))
     = \<lparr>statusCode = 200, processedMessages = Some 0, queueDistribution = None, error = None\<rparr>
   \<and> quiet (snd (lambda_handler test_config (example_collaborators [])
                   (event_of [JStr [], JStr payload_invalid])))"
proof -
  have d: "decode_phase (example_collaborators []) (event_of [JStr [], JStr payload_invalid])
     = (Inr [], [Log INFO ''Processing MSK event'', Log DEBUG ''Processing partition'',
                 Log WARNING ''Empty message value in record'',
                 Log ERROR ''Failed to parse Kafka message'', RoutingErrors ''parse_error''])"
    by (simp add: decode_phase_def event_of_def dict_get_def parse_kafka_message_def
          parse_failed_def decode_value_def example_collaborators_def payload_invalid_def
          payload_75_def payload_many_def payload_300_def text_invalid_def text_75_def
          text_many_def text_300_def
        quoted_def)
  from lambda_handler_no_messages [OF d, of test_config] d show ?thesis by (simp add: quiet_def)
qed

text \<open>C5 as stated fails on the event of \<^verbatim>\<open>test_lambda_handler_empty_event\<close>: the
  response has no \<^verbatim>\<open>queueDistribution\<close>.\<close>

theorem lambda_handler_no_messages_counterexample:
  "fst (lambda_handler test_config (example_collaborators []) (JObj [(''records'', JObj [])]))
     = \<lparr>statusCode = 200, processedMessages = Some 0, queueDistribution = None, error = None\<rparr>
   \<and> queueDistribution
       (fst (lambda_handler test_config (example_collaborators []) (JObj [(''records'', JObj [])])))
     \<noteq> Some \<lparr>small = 0, medium = 0, large = 0\<rparr>"
  by (simp add: lambda_handler_def handler_body_def decode_phase_def dict_get_def)

text \<open>
  C8. For every event, \<^verbatim>\<open>lambda_handler\<close> returns a response: the one of its body when
  the body returns, and when the body raises an exception in any of its phases, the
  response with status 500 that carries the exception, after recording the routing error
  \<^verbatim>\<open>handler_error\<close>. An event that is not a dict, such as \<^verbatim>\<open>None\<close>, gives the
  failure response with the \<^verbatim>\<open>AttributeError\<close> of \<^verbatim>\<open>event.get\<close>.
\<close>

theorem lambda_handler_catches:
  "((\<exists>r tr. handler_body cfg col event = (Inr r, tr) \<and> lambda_handler cfg col event = (r, tr))
    \<or> (\<exists>e tr. handler_body cfg col event = (Inl e, tr)
          \<and> lambda_handler cfg col event =
              (\<lparr>statusCode = 500, processedMessages = None, queueDistribution = None,
                error = Some e\<rparr>,
               tr @ [Log ERROR ''Lambda handler error'', RoutingErrors ''handler_error''])))
   \<and> ((\<forall>d. event \<noteq> JObj d) \<longrightarrow>
        lambda_handler cfg col event =
          (\<lparr>statusCode = 500, processedMessages = None, queueDistribution = None,
            error = Some AttributeError\<rparr>,
           [Log ERROR ''Lambda handler error'', RoutingErrors ''handler_error'']))"
proof (intro conjI impI)
  obtain res tr where b: "handler_body cfg col event = (res, tr)"
    by (cases "handler_body cfg col event")
  show "(\<exists>r tr. handler_body cfg col event = (Inr r, tr) \<and> lambda_handler cfg col event = (r, tr))
    \<or> (\<exists>e tr. handler_body cfg col event = (Inl e, tr)
          \<and> lambda_handler cfg col event =
              (\<lparr>statusCode = 500, processedMessages = None, queueDistribution = None,
                error = Some e\<rparr>,
               tr @ [Log ERROR ''Lambda handler error'', RoutingErrors ''handler_error'']))"
    by (cases res) (simp_all add: b lambda_handler_def)
next
  assume "\<forall>d. event \<noteq> JObj d"
  then have "py_get event ''eventSource'' JNull = Inl AttributeError"
    by (cases event) simp_all
  then have "handler_body cfg col event = (Inl AttributeError, [])"
    by (simp add: handler_body_def decode_phase_def)
  then show "lambda_handler cfg col event =
          (\<lparr>statusCode = 500, processedMessages = None, queueDistribution = None,
            error = Some AttributeError\<rparr>,
           [Log ERROR ''Lambda handler error'', RoutingErrors ''handler_error''])"
    by (simp add: lambda_handler_def)
qed

text \<open>The theorem at the event \<^verbatim>\<open>None\<close> of \<^verbatim>\<open>test_lambda_handler_exception\<close>.\<close>

theorem lambda_handler_catches_witness:
  "handler_body test_config (example_collaborators []) JNull = (Inl AttributeError, [])
   \<and> lambda_handler test_config (example_collaborators []) JNull =
       (\<lparr>statusCode = 500, processedMessages = None, queueDistribution = None,
         error = Some AttributeError\<rparr>,
        [Log ERROR ''Lambda handler error'', RoutingErrors ''handler_error''])"
  using lambda_handler_catches [of test_config "example_collaborators []" JNull]
  by (simp add: handler_body_def decode_phase_def)

section \<open>Properties of the dispatch\<close>

lemma set_batch: "b \<in> set (batches messages) \<Longrightarrow> set b \<subseteq> set messages"
proof -
  assume "b \<in> set (batches messages)"
  then obtain i where "b = take BATCH_SIZE (drop i messages)" by (auto simp: batches_def)
  then show ?thesis
    by (metis set_take_subset set_drop_subset subset_trans)
qed

lemma prepare_entries_objects:
  "\<forall>m \<in> set messages. \<exists>d. m = JObj d \<Longrightarrow> \<exists>entries. prepare_entries i messages = Inr entries"
proof (induction messages arbitrary: i)
  case Nil
  show ?case by simp
next
  case (Cons m messages)
  then obtain d where d: "m = JObj d" by auto
  from Cons obtain entries where "prepare_entries (Suc i) messages = Inr entries" by fastforce
  then show ?case by (simp add: d)
qed

lemma send_to_sqs_batch_observations:
  "batch_sizes (snd (send_to_sqs_batch client messages queue_url)) = []
   \<and> messages_processed (snd (send_to_sqs_batch client messages queue_url)) = []"
  by (auto simp: send_to_sqs_batch_def send_failed_def split: sum.splits sqs_outcome.splits)

lemma send_to_sqs_batch_calls:
  "prepare_entries 0 messages = Inr entries \<Longrightarrow>
   sqs_calls (snd (send_to_sqs_batch client messages queue_url)) = [(queue_url, entries)]"
  by (auto simp: send_to_sqs_batch_def send_failed_def split: sqs_outcome.splits)

lemma await_all_result:
  "fst (await_all col k ts all_successful) = (all_successful \<and> all_succeeded col k ts)"
proof (induction ts arbitrary: k all_successful)
  case Nil
  show ?case by simp
next
  case (Cons t ts)
  obtain success tr_task where r: "task_result col k t = (success, tr_task)"
    by (cases "task_result col k t")
  show ?case
    using Cons.IH [of "Suc k" False] Cons.IH [of "Suc k" all_successful]
    by (auto simp: r task_succeeded_def split: prod.splits)
qed

lemma await_all_batch_sizes:
  "batch_sizes (snd (await_all col k ts all_successful)) = succeeded_sizes col k ts"
proof (induction ts arbitrary: k all_successful)
  case Nil
  show ?case by simp
next
  case (Cons t ts)
  obtain success tr_task where r: "task_result col k t = (success, tr_task)"
    by (cases "task_result col k t")
  have q: "batch_sizes tr_task = []"
    using send_to_sqs_batch_observations [of "sqs_client col k" "task_batch t" "task_url t"] r
    by (simp add: task_result_def)
  show ?case
    using Cons.IH [of "Suc k" False] Cons.IH [of "Suc k" all_successful]
    by (auto simp: r q task_succeeded_def batch_sizes_append split: prod.splits)
qed

lemma await_all_messages_processed:
  "messages_processed (snd (await_all col k ts all_successful)) = []"
proof (induction ts arbitrary: k all_successful)
  case Nil
  show ?case by simp
next
  case (Cons t ts)
  obtain success tr_task where r: "task_result col k t = (success, tr_task)"
    by (cases "task_result col k t")
  have q: "messages_processed tr_task = []"
    using send_to_sqs_batch_observations [of "sqs_client col k" "task_batch t" "task_url t"] r
    by (simp add: task_result_def)
  show ?case
    using Cons.IH [of "Suc k" False] Cons.IH [of "Suc k" all_successful]
    by (auto simp: r q messages_processed_append split: prod.splits)
qed

lemma await_all_calls:
  "\<forall>t \<in> set ts. \<forall>m \<in> set (task_batch t). \<exists>d. m = JObj d \<Longrightarrow>
   map fst (sqs_calls (snd (await_all col k ts all_successful))) = map task_url ts"
proof (induction ts arbitrary: k all_successful)
  case Nil
  show ?case by simp
next
  case (Cons t ts)
  obtain success tr_task where r: "task_result col k t = (success, tr_task)"
    by (cases "task_result col k t")
  from Cons.prems have "\<forall>m \<in> set (task_batch t). \<exists>d. m = JObj d" by simp
  then obtain entries where "prepare_entries 0 (task_batch t) = Inr entries"
    using prepare_entries_objects by blast
  then have q: "sqs_calls tr_task = [(task_url t, entries)]"
    using send_to_sqs_batch_calls [of "task_batch t" entries "sqs_client col k" "task_url t"] r
    by (simp add: task_result_def)
  from Cons.prems have rest: "\<forall>t \<in> set ts. \<forall>m \<in> set (task_batch t). \<exists>d. m = JObj d" by simp
  show ?case
    using Cons.IH [OF rest, of "Suc k" False] Cons.IH [OF rest, of "Suc k" all_successful]
    by (auto simp: r q sqs_calls_append split: prod.splits)
qed


lemma batches_Nil: "batches [] = []"
  by (simp add: batches_def range_done)

lemma submit_tasks_known_keys:
  "set (map fst grouped) \<subseteq> {''SMALL'', ''MEDIUM'', ''LARGE''} \<Longrightarrow>
   fst (submit_tasks cfg grouped) = None
   \<and> (\<forall>t \<in> set (snd (submit_tasks cfg grouped)).
        \<exists>kv \<in> set grouped. set (task_batch t) \<subseteq> set (snd kv))"
proof (induction grouped)
  case Nil
  show ?case by simp
next
  case (Cons kv grouped)
  obtain queue_type messages where kv: "kv = (queue_type, messages)" by (cases kv)
  from Cons.prems have k: "queue_type \<in> {''SMALL'', ''MEDIUM'', ''LARGE''}" by (simp add: kv)
  then obtain queue_url where u: "map_of (QUEUE_MAPPINGS cfg) queue_type = Some queue_url"
    by (auto simp: QUEUE_MAPPINGS_def)
  from Cons have ih: "fst (submit_tasks cfg grouped) = None
      \<and> (\<forall>t \<in> set (snd (submit_tasks cfg grouped)).
            \<exists>kv \<in> set grouped. set (task_batch t) \<subseteq> set (snd kv))"
    by simp
  obtain err later where l: "submit_tasks cfg grouped = (err, later)"
    by (cases "submit_tasks cfg grouped")
  let ?here = "map (\<lambda>batch. \<lparr>task_batch = batch, task_url = queue_url,
      task_queue_type = queue_type\<rparr>) (batches messages)"
  have here: "\<forall>t \<in> set ?here. set (task_batch t) \<subseteq> set messages"
    using set_batch [of _ messages] by auto
  have eq: "submit_tasks cfg (kv # grouped) = (err, ?here @ later)"
  proof (cases "messages = []")
    case True
    then show ?thesis by (simp add: kv l batches_Nil)
  next
    case False
    then show ?thesis by (simp add: kv l u)
  qed
  have "\<forall>t \<in> set (?here @ later). \<exists>kv' \<in> set (kv # grouped). set (task_batch t) \<subseteq> set (snd kv')"
  proof
    fix t assume "t \<in> set (?here @ later)"
    then consider "t \<in> set ?here" | "t \<in> set later" by auto
    then show "\<exists>kv' \<in> set (kv # grouped). set (task_batch t) \<subseteq> set (snd kv')"
    proof cases
      case 1
      with here have "set (task_batch t) \<subseteq> set messages" by blast
      then have "set (task_batch t) \<subseteq> set (snd kv)" by (simp add: kv)
      then show ?thesis by auto
    next
      case 2
      with ih l obtain kv' where "kv' \<in> set grouped" "set (task_batch t) \<subseteq> set (snd kv')"
        by auto
      then show ?thesis by auto
    qed
  qed
  with ih l show ?case unfolding eq by simp
qed

lemma tagged_objects:
  "tagged grouped \<Longrightarrow> kv \<in> set grouped \<Longrightarrow> m \<in> set (snd kv) \<Longrightarrow> \<exists>d. m = JObj d"
  by (auto simp: tagged_def)

lemma three_keys:
  "map fst grouped = [''SMALL'', ''MEDIUM'', ''LARGE''] \<Longrightarrow>
   \<exists>a b c. grouped = [(''SMALL'', a), (''MEDIUM'', b), (''LARGE'', c)]"
  by (auto simp: map_eq_Cons_conv)

text \<open>What a grouping that returns has produced.\<close>

lemma route_messages_by_queue_type_returns:
  assumes "route_messages_by_queue_type cfg parsed_messages = (Inr grouped, tr)"
  shows "\<exists>a b c. grouped = [(''SMALL'', a), (''MEDIUM'', b), (''LARGE'', c)]
           \<and> length a + length b + length c = length parsed_messages"
    and "tagged grouped"
    and "length (messages_processed tr) = length parsed_messages"
proof -
  have r: "route_loop cfg parsed_messages [(''SMALL'', []), (''MEDIUM'', []), (''LARGE'', [])] []
      = (Inr grouped, tr)"
    using assms by (simp add: route_messages_by_queue_type_def)
  have t0: "tagged [(''SMALL'', []), (''MEDIUM'', []), (''LARGE'', [])]"
    by (simp add: tagged_def)
  from route_loop_returns [OF route_initial_keys r] t0
  have inv: "map fst grouped = [''SMALL'', ''MEDIUM'', ''LARGE'']"
    "grouped_total grouped = length parsed_messages" "tagged grouped"
    "length (messages_processed tr) = length parsed_messages"
    by (simp_all add: grouped_total_def)
  from three_keys [OF inv(1)] obtain a b c
    where g: "grouped = [(''SMALL'', a), (''MEDIUM'', b), (''LARGE'', c)]"
    by (elim exE)
  with inv(2) have "length a + length b + length c = length parsed_messages"
    by (simp add: grouped_total_def)
  with g show "\<exists>a b c. grouped = [(''SMALL'', a), (''MEDIUM'', b), (''LARGE'', c)]
           \<and> length a + length b + length c = length parsed_messages"
    by blast
  show "tagged grouped" by (rule inv(3))
  show "length (messages_processed tr) = length parsed_messages" by (rule inv(4))
qed

text \<open>The dispatch of a grouping that the routing has produced.\<close>

lemma send_batches_concurrently_routed:
  assumes "route_messages_by_queue_type cfg parsed_messages = (Inr grouped, tr)"
  shows "\<exists>tr'. send_batches_concurrently cfg col grouped =
            (Inr (all_succeeded col 0 (snd (submit_tasks cfg grouped))), tr')
          \<and> batch_sizes tr' = succeeded_sizes col 0 (snd (submit_tasks cfg grouped))
          \<and> map fst (sqs_calls tr') = map task_url (snd (submit_tasks cfg grouped))
          \<and> messages_processed tr' = []"
proof -
  from route_messages_by_queue_type_returns(1) [OF assms]
  have keys: "set (map fst grouped) \<subseteq> {''SMALL'', ''MEDIUM'', ''LARGE''}" by auto
  obtain err futures where s: "submit_tasks cfg grouped = (err, futures)"
    by (cases "submit_tasks cfg grouped")
  from submit_tasks_known_keys [OF keys, of cfg] s
  have none: "err = None"
    and sub: "\<forall>t \<in> set futures. \<exists>kv \<in> set grouped. set (task_batch t) \<subseteq> set (snd kv)"
    by simp_all
  have objs: "\<forall>t \<in> set futures. \<forall>m \<in> set (task_batch t). \<exists>d. m = JObj d"
    using sub tagged_objects [OF route_messages_by_queue_type_returns(2) [OF assms]]
    by (meson subsetD)
  obtain r tr' where a: "await_all col 0 futures True = (r, tr')"
    by (cases "await_all col 0 futures True")
  have "r = all_succeeded col 0 futures"
    using await_all_result [of col 0 futures True] a by simp
  moreover have "batch_sizes tr' = succeeded_sizes col 0 futures"
    using await_all_batch_sizes [of col 0 futures True] a by simp
  moreover have "map fst (sqs_calls tr') = map task_url futures"
    using await_all_calls [OF objs, of col 0 True] a by simp
  moreover have "messages_processed tr' = []"
    using await_all_messages_processed [of col 0 futures True] a by simp
  ultimately show ?thesis
    by (simp add: send_batches_concurrently_def s none a)
qed

lemma dispatch_phase_raises:
  "route_messages_by_queue_type cfg parsed_messages = (Inl e, tr) \<Longrightarrow>
   dispatch_phase cfg col parsed_messages = (Inl e, tr)"
  by (simp add: dispatch_phase_def)

lemma dispatch_phase_returns:
  assumes "route_messages_by_queue_type cfg parsed_messages = (Inr grouped, tr)"
  shows "\<exists>a b c tr'.
           grouped = [(''SMALL'', a), (''MEDIUM'', b), (''LARGE'', c)]
           \<and> length a + length b + length c = length parsed_messages
           \<and> dispatch_phase cfg col parsed_messages =
               (Inr \<lparr>statusCode =
                       (if all_succeeded col 0 (snd (submit_tasks cfg grouped)) then 200 else 500),
                     processedMessages = Some (length parsed_messages),
                     queueDistribution =
                       Some \<lparr>small = length a, medium = length b, large = length c\<rparr>,
                     error = None\<rparr>, tr')"
proof -
  from route_messages_by_queue_type_returns(1) [OF assms] obtain a b c where
    g: "grouped = [(''SMALL'', a), (''MEDIUM'', b), (''LARGE'', c)]" and
    n: "length a + length b + length c = length parsed_messages"
    by blast
  from send_batches_concurrently_routed [OF assms, of col] obtain tr' where
    s: "send_batches_concurrently cfg col grouped =
          (Inr (all_succeeded col 0 (snd (submit_tasks cfg grouped))), tr')"
    by blast
  have sizes: "group_size grouped ''SMALL'' = Inr (length a)"
    "group_size grouped ''MEDIUM'' = Inr (length b)"
    "group_size grouped ''LARGE'' = Inr (length c)"
    by (simp_all add: group_size_def g)
  have "dispatch_phase cfg col parsed_messages =
      (Inr \<lparr>statusCode =
              (if all_succeeded col 0 (snd (submit_tasks cfg grouped)) then 200 else 500),
            processedMessages = Some (length parsed_messages),
            queueDistribution =
              Some \<lparr>small = length a, medium = length b, large = length c\<rparr>,
            error = None\<rparr>,
       tr @ Log INFO ''Grouped messages by queue type'' # tr'
          @ [Log INFO ''Completed message routing''])"
    by (simp add: dispatch_phase_def assms sizes s)
  with g n show ?thesis by blast
qed

section \<open>Properties of an invocation\<close>

text \<open>The definitions of the example environment, for evaluating the examples.\<close>

lemmas example_defs =
  example_collaborators_def payload_75_def payload_300_def payload_many_def payload_invalid_def
  text_75_def text_300_def text_many_def text_invalid_def message_75_def message_300_def
  message_many_def quoted_def event_of_def test_config_def

lemma handler_body_dispatch:
  "decode_phase col event = (Inr parsed_messages, tr0) \<Longrightarrow> parsed_messages \<noteq> [] \<Longrightarrow>
   dispatch_phase cfg col parsed_messages = (r, tr) \<Longrightarrow>
   handler_body cfg col event = (r, tr0 @ Log INFO ''Parsed messages from MSK'' # tr)"
  by (simp add: handler_body_def)

lemma route_loop_raises_later:
  "map fst grouped = [''SMALL'', ''MEDIUM'', ''LARGE''] \<Longrightarrow>
   m \<in> set ms \<Longrightarrow> determine_queue_type cfg m = Inl e \<Longrightarrow>
   \<exists>e' tr'. route_loop cfg ms grouped tr = (Inl e', tr')"
proof (induction ms arbitrary: grouped tr)
  case Nil
  then show ?case by simp
next
  case (Cons m' rest)
  show ?case
  proof (cases "determine_queue_type cfg m'")
    case (Inl e')
    then show ?thesis by (simp only: route_loop_raises) blast
  next
    case (Inr q)
    with Cons.prems(2,3) have m: "m \<in> set rest" by auto
    from route_loop_step [OF Inr Cons.prems(1), of rest tr] obtain d c l where
      l: "map_of grouped c = Some l" and
      step: "route_loop cfg (m' # rest) grouped tr =
          route_loop cfg rest (dict_set grouped c (l @ [JObj (dict_set d ''queueType'' (JStr c))]))
            (tr @ [MessagesProcessed (JStr c)])"
      by blast
    from l have "c \<in> set (map fst grouped)" by (metis map_of_eq_None_iff option.distinct(1) set_map)
    then have keys: "map fst (dict_set grouped c (l @ [JObj (dict_set d ''queueType'' (JStr c))]))
        = [''SMALL'', ''MEDIUM'', ''LARGE'']"
      using Cons.prems(1) by (simp only: map_fst_dict_set)
    from Cons.IH [OF keys m Cons.prems(3)] show ?thesis unfolding step .
  qed
qed

text \<open>
  C10. In every response of the handler that has a \<^verbatim>\<open>queueDistribution\<close>, that is in
  every response built after the dispatch, \<^verbatim>\<open>processedMessages\<close> is the sum of the
  three counts \<^verbatim>\<open>small\<close>, \<^verbatim>\<open>medium\<close> and \<^verbatim>\<open>large\<close>.
\<close>

theorem lambda_handler_counts_agree:
  assumes h: "lambda_handler cfg col event = (r, tr)"
    and qd: "queueDistribution r = Some qd"
  shows "processedMessages r = Some (small qd + medium qd + large qd)"
proof -
  obtain res0 tr0 where d: "decode_phase col event = (res0, tr0)"
    by (cases "decode_phase col event")
  show ?thesis
  proof (cases res0)
    case (Inl e)
    with d h qd show ?thesis by (auto simp: lambda_handler_def handler_body_def)
  next
    case (Inr parsed_messages)
    show ?thesis
    proof (cases "parsed_messages = []")
      case True
      with d Inr h qd show ?thesis by (auto simp: lambda_handler_def handler_body_def)
    next
      case False
      obtain res1 tr1 where r: "route_messages_by_queue_type cfg parsed_messages = (res1, tr1)"
        by (cases "route_messages_by_queue_type cfg parsed_messages")
      show ?thesis
      proof (cases res1)
        case (Inl e)
        with r have "dispatch_phase cfg col parsed_messages = (Inl e, tr1)"
          by (simp add: dispatch_phase_raises)
        from handler_body_dispatch [OF d [unfolded Inr] False this] h qd show ?thesis
          by (auto simp: lambda_handler_def)
      next
        case grouped: (Inr grouped)
        from dispatch_phase_returns [OF r [unfolded grouped], of col] obtain a b c tr' where
          g: "grouped = [(''SMALL'', a), (''MEDIUM'', b), (''LARGE'', c)]" and
          n: "length a + length b + length c = length parsed_messages" and
          p: "dispatch_phase cfg col parsed_messages =
               (Inr \<lparr>statusCode =
                       (if all_succeeded col 0 (snd (submit_tasks cfg grouped)) then 200 else 500),
                     processedMessages = Some (length parsed_messages),
                     queueDistribution =
                       Some \<lparr>small = length a, medium = length b, large = length c\<rparr>,
                     error = None\<rparr>, tr')"
          by blast
        from handler_body_dispatch [OF d [unfolded Inr] False p] h qd n show ?thesis
          by (auto simp: lambda_handler_def)
      qed
    qed
  qed
qed


lemma decode_example_75:
  "decode_phase (example_collaborators failing) (event_of [JStr payload_75]) =
     (Inr [message_75],
      [Log INFO ''Processing MSK event'', Log DEBUG ''Processing partition'',
       Log DEBUG ''Parsed message''])"
  by (simp add: decode_phase_def dict_get_def parse_kafka_message_def parse_failed_def
        decode_value_def example_defs)

text \<open>The theorem at the event of \<^verbatim>\<open>test_lambda_handler_success\<close>.\<close>

theorem lambda_handler_counts_agree_witness:
  "queueDistribution
     (fst (lambda_handler test_config (example_collaborators []) (event_of [JStr payload_75])))
     = Some \<lparr>small = 0, medium = 1, large = 0\<rparr>
   \<and> processedMessages
       (fst (lambda_handler test_config (example_collaborators []) (event_of [JStr payload_75])))
     = Some 1"
proof -
  have r: "route_messages_by_queue_type test_config [message_75]
      = (Inr [(''SMALL'', []),
              (''MEDIUM'', [JObj [(''productId'', JInt 123), (''applicationCount'', JInt 75),
                                  (''queueType'', JStr ''MEDIUM'')]]),
              (''LARGE'', [])],
         [MessagesProcessed (JStr ''MEDIUM'')])"
    by (simp add: route_messages_by_queue_type_def determine_queue_type_JObj dict_get_def
          application_count_def known_category_def threshold_ladder_def message_75_def
          truthy_and_in_def py_in_def dict_append_def
          del: determine_queue_type.simps)
  from dispatch_phase_returns [OF r, of "example_collaborators []"]
  obtain res tr where p: "dispatch_phase test_config (example_collaborators []) [message_75]
      = (Inr res, tr)" and q: "queueDistribution res = Some \<lparr>small = 0, medium = 1, large = 0\<rparr>"
    by auto
  from handler_body_dispatch [OF decode_example_75 _ p]
  have l: "fst (lambda_handler test_config (example_collaborators []) (event_of [JStr payload_75]))
      = res"
    by (simp add: lambda_handler_def)
  from lambda_handler_counts_agree
         [of test_config "example_collaborators []" "event_of [JStr payload_75]" res _
             "\<lparr>small = 0, medium = 1, large = 0\<rparr>"] l q
  show ?thesis
    by (cases "lambda_handler test_config (example_collaborators []) (event_of [JStr payload_75])")
       simp
qed


text \<open>
  C2. When the handler reaches the dispatch with the grouping of its messages,
  \<^verbatim>\<open>send_batches_concurrently\<close> returns true exactly when every submitted task
  succeeded. No failure stops it: every submitted batch is sent to the queue of its task,
  and the size of every batch that succeeded is recorded, whatever happened to the tasks
  before it. The status of the response is 200 when all tasks succeeded and 500 when one
  failed, and in both cases \<^verbatim>\<open>processedMessages\<close> is the number of messages that were
  classified, which is the number of parsed messages.
\<close>

theorem send_batches_concurrently_aggregates:
  assumes d: "decode_phase col event = (Inr parsed_messages, tr0)"
    and ne: "parsed_messages \<noteq> []"
    and r: "route_messages_by_queue_type cfg parsed_messages = (Inr grouped, tr)"
  shows "fst (send_batches_concurrently cfg col grouped)
           = Inr (all_succeeded col 0 (snd (submit_tasks cfg grouped)))
         \<and> batch_sizes (snd (send_batches_concurrently cfg col grouped))
           = succeeded_sizes col 0 (snd (submit_tasks cfg grouped))
         \<and> map fst (sqs_calls (snd (send_batches_concurrently cfg col grouped)))
           = map task_url (snd (submit_tasks cfg grouped))
         \<and> statusCode (fst (lambda_handler cfg col event))
           = (if all_succeeded col 0 (snd (submit_tasks cfg grouped)) then 200 else 500)
         \<and> processedMessages (fst (lambda_handler cfg col event))
           = Some (length (messages_processed tr))
         \<and> length (messages_processed tr) = length parsed_messages"
proof -
  from send_batches_concurrently_routed [OF r, of col] obtain tr' where
    s: "send_batches_concurrently cfg col grouped =
            (Inr (all_succeeded col 0 (snd (submit_tasks cfg grouped))), tr')"
      "batch_sizes tr' = succeeded_sizes col 0 (snd (submit_tasks cfg grouped))"
      "map fst (sqs_calls tr') = map task_url (snd (submit_tasks cfg grouped))"
    by blast
  from dispatch_phase_returns [OF r, of col] obtain res tr'' where
    p: "dispatch_phase cfg col parsed_messages = (Inr res, tr'')"
      "statusCode res = (if all_succeeded col 0 (snd (submit_tasks cfg grouped)) then 200 else 500)"
      "processedMessages res = Some (length parsed_messages)"
    by auto
  from handler_body_dispatch [OF d ne p(1)]
  have "fst (lambda_handler cfg col event) = res" by (simp add: lambda_handler_def)
  with s p route_messages_by_queue_type_returns(3) [OF r] show ?thesis by simp
qed

lemma decode_example_75_300:
  "decode_phase (example_collaborators failing) (event_of [JStr payload_75, JStr payload_300]) =
     (Inr [message_75, message_300],
      [Log INFO ''Processing MSK event'', Log DEBUG ''Processing partition'',
       Log DEBUG ''Parsed message'', Log DEBUG ''Parsed message''])"
  by (simp add: decode_phase_def dict_get_def parse_kafka_message_def parse_failed_def
        decode_value_def example_defs)

lemma route_example_75_300:
  "route_messages_by_queue_type test_config [message_75, message_300]
      = (Inr [(''SMALL'', []),
              (''MEDIUM'', [JObj [(''productId'', JInt 123), (''applicationCount'', JInt 75),
                                  (''queueType'', JStr ''MEDIUM'')]]),
              (''LARGE'', [JObj [(''productId'', JInt 9), (''applicationCount'', JInt 300),
                                 (''queueType'', JStr ''LARGE'')]])],
         [MessagesProcessed (JStr ''MEDIUM''), MessagesProcessed (JStr ''LARGE'')])"
  by (simp add: route_messages_by_queue_type_def determine_queue_type_JObj dict_get_def
        application_count_def known_category_def threshold_ladder_def message_75_def
        message_300_def truthy_and_in_def py_in_def dict_append_def
        del: determine_queue_type.simps)

lemma batches_single: "batches [m] = [[m]]"
  by (simp add: batches_def range_unfold range_done BATCH_SIZE_def)

text \<open>
  The theorem at an event with two messages, one for the medium queue and one for the
  large queue, where SQS reports a failed entry for the first task: the second batch is
  still sent and its size recorded, and the response has status 500 with two processed
  messages.
\<close>

theorem send_batches_concurrently_aggregates_witness:
  "fst (send_batches_concurrently test_config (example_collaborators [0])
         [(''SMALL'', []),
          (''MEDIUM'', [JObj [(''productId'', JInt 123), (''applicationCount'', JInt 75),
                              (''queueType'', JStr ''MEDIUM'')]]),
          (''LARGE'', [JObj [(''productId'', JInt 9), (''applicationCount'', JInt 300),
                             (''queueType'', JStr ''LARGE'')]])])
     = Inr False
   \<and> batch_sizes (snd (send_batches_concurrently test_config (example_collaborators [0])
         [(''SMALL'', []),
          (''MEDIUM'', [JObj [(''productId'', JInt 123), (''applicationCount'', JInt 75),
                              (''queueType'', JStr ''MEDIUM'')]]),
          (''LARGE'', [JObj [(''productId'', JInt 9), (''applicationCount'', JInt 300),
                             (''queueType'', JStr ''LARGE'')]])]))
     = [1]
   \<and> map fst (sqs_calls (snd (send_batches_concurrently test_config (example_collaborators [0])
         [(''SMALL'', []),
          (''MEDIUM'', [JObj [(''productId'', JInt 123), (''applicationCount'', JInt 75),
                              (''queueType'', JStr ''MEDIUM'')]]),
          (''LARGE'', [JObj [(''productId'', JInt 9), (''applicationCount'', JInt 300),
                             (''queueType'', JStr ''LARGE'')]])])))
     = [MEDIUM_QUEUE_URL test_config, LARGE_QUEUE_URL test_config]
   \<and> statusCode (fst (lambda_handler test_config (example_collaborators [0])
                        (event_of [JStr payload_75, JStr payload_300])))
     = 500
   \<and> processedMessages (fst (lambda_handler test_config (example_collaborators [0])
                               (event_of [JStr payload_75, JStr payload_300])))
     = Some 2"
proof -
  have ne: "[message_75, message_300] \<noteq> []" by simp
  show ?thesis
    using send_batches_concurrently_aggregates
            [OF decode_example_75_300 ne route_example_75_300, of "[0]"]
    by (simp add: QUEUE_MAPPINGS_def batches_single task_succeeded_def task_result_def
          send_to_sqs_batch_def dict_get_def example_collaborators_def)
qed


text \<open>
  C9. When the parsed messages of an invocation include a message without a known
  \<^verbatim>\<open>queueType\<close> whose count is not numeric, the classification of that message raises
  \<^verbatim>\<open>TypeError\<close> and does not take the count for 0; the handler returns the failure
  response with status 500 and the error, and no batch is sent to SQS for any message of
  the invocation.
\<close>

theorem lambda_handler_fails_on_non_numeric_count:
  assumes d: "decode_phase col event = (Inr parsed_messages, tr0)"
    and m: "JObj msg \<in> set parsed_messages"
    and q: "\<not> known_category (dict_get msg ''queueType'' JNull)"
    and c: "\<not> numeric (application_count msg)"
  shows "determine_queue_type cfg (JObj msg) = Inl TypeError
         \<and> (\<exists>e tr. lambda_handler cfg col event =
                     (\<lparr>statusCode = 500, processedMessages = None, queueDistribution = None,
                       error = Some e\<rparr>, tr)
                   \<and> sqs_calls tr = [])"
proof -
  have t: "determine_queue_type cfg (JObj msg) = Inl TypeError"
    using q c
    by (simp add: determine_queue_type_JObj threshold_ladder_not_numeric
          del: determine_queue_type.simps)
  from route_loop_raises_later [OF route_initial_keys m t, of "[]"] obtain e tr1 where
    r: "route_messages_by_queue_type cfg parsed_messages = (Inl e, tr1)"
    by (auto simp: route_messages_by_queue_type_def)
  have "sqs_calls tr1 = []"
    using route_loop_observations [OF route_initial_keys, of cfg parsed_messages "[]"] r
    by (simp add: route_messages_by_queue_type_def)
  moreover have "sqs_calls tr0 = []"
    using decode_phase_quiet [of col event] d by (simp add: quiet_def)
  moreover from m have ne: "parsed_messages \<noteq> []" by auto
  from handler_body_dispatch [OF d ne dispatch_phase_raises [OF r]]
  have "lambda_handler cfg col event =
      (\<lparr>statusCode = 500, processedMessages = None, queueDistribution = None, error = Some e\<rparr>,
       (tr0 @ Log INFO ''Parsed messages from MSK'' # tr1)
         @ [Log ERROR ''Lambda handler error'', RoutingErrors ''handler_error''])"
    by (simp add: lambda_handler_def)
  ultimately have "\<exists>e tr. lambda_handler cfg col event =
                     (\<lparr>statusCode = 500, processedMessages = None, queueDistribution = None,
                       error = Some e\<rparr>, tr)
                   \<and> sqs_calls tr = []"
    by (simp add: sqs_calls_append)
  with t show ?thesis by simp
qed

lemma decode_example_75_many:
  "decode_phase (example_collaborators failing) (event_of [JStr payload_75, JStr payload_many]) =
     (Inr [message_75, message_many],
      [Log INFO ''Processing MSK event'', Log DEBUG ''Processing partition'',
       Log DEBUG ''Parsed message'', Log DEBUG ''Parsed message''])"
  by (simp add: decode_phase_def dict_get_def parse_kafka_message_def parse_failed_def
        decode_value_def example_defs)

text \<open>The theorem at an event with a valid message followed by a message whose count
  is the string \<^verbatim>\<open>many\<close>.\<close>

theorem lambda_handler_fails_on_non_numeric_count_witness:
  "determine_queue_type test_config message_many = Inl TypeError
   \<and> (\<exists>e tr. lambda_handler test_config (example_collaborators [])
                 (event_of [JStr payload_75, JStr payload_many]) =
                     (\<lparr>statusCode = 500, processedMessages = None, queueDistribution = None,
                       error = Some e\<rparr>, tr)
                   \<and> sqs_calls tr = [])"
  using lambda_handler_fails_on_non_numeric_count
          [OF decode_example_75_many,
           of "[(''productId'', JInt 7), (''applicationCount'', JStr ''many'')]" test_config]
  by (simp add: message_many_def dict_get_def application_count_def known_category_def)

end
